theory Spec2Isabelle
  imports Main
begin

section \<open>Data model (vouchers/models.py)\<close>

text \<open>
  Every Django model is a record and every table a list of rows. Primary and foreign keys
  are natural numbers, timestamps are natural numbers (ticks of the clock that the caller
  passes in as \<open>now\<close>), and a \<open>CharField\<close> holds a \<open>string\<close>. A character stands for a
  code point below 256. The many-to-many relation between users and groups is observed by
  the code only through the group names, so a user row carries the names of its groups,
  one entry per membership.
\<close>

record user =
  user_id :: nat
  username :: string
  is_superuser :: bool
  groups :: "string list"

record designation =
  designation_id :: nat
  designation_name :: string

record user_profile =
  profile_id :: nat
  profile_user :: nat
  profile_designation :: "nat option"

record uploaded_file =
  file_name :: string
  file_size :: nat

datatype decimal = NaN | Infinity bool | Finite int int

record voucher =
  voucher_id :: nat
  voucher_number :: string
  voucher_date :: string
  payment_type :: string
  name_title :: string
  pay_to :: string
  attachment :: "uploaded_file option"
  cheque_number :: "string option"
  created_by :: nat
  created_at :: nat
  status :: string

record particular =
  particular_voucher :: nat
  description :: string
  amount :: decimal
  particular_attachment :: "uploaded_file option"

record voucher_approval =
  approval_voucher :: nat
  approver :: nat
  approval_status :: string
  approved_at :: nat

record active_approval_designation =
  aad_designation :: nat
  is_active :: bool
  updated_by :: nat
  updated_at :: nat

record database =
  users :: "user list"
  designations :: "designation list"
  profiles :: "user_profile list"
  active_designations :: "active_approval_designation list"
  vouchers :: "voucher list"
  particulars :: "particular list"
  approvals :: "voucher_approval list"

text \<open>What a view answers: a redirect, a 404, a status code with a body, or an exception
  that nothing catches.\<close>

datatype body =
  Errors "(string \<times> string) list"
  | ApprovalData voucher string nat
  | VoucherData voucher "particular list"
  | ControlData string nat

datatype response =
  Redirect string
  | Http404
  | Response nat body
  | Uncaught string

section \<open>Python strings and integers\<close>

text \<open>
  \<open>str.isspace\<close> on code points below 256; \<open>str.strip()\<close> removes such characters from
  both ends.
\<close>

definition py_isspace :: "char \<Rightarrow> bool" where
  "py_isspace c = (of_char c \<in> set [9, 10, 11, 12, 13, 28, 29, 30, 31, 32, 133, 160 :: nat])"

definition strip :: "string \<Rightarrow> string" where
  "strip s = rev (dropWhile py_isspace (rev (dropWhile py_isspace s)))"

text \<open>
  \<open>str.isdigit()\<close>: a non-empty string of digit characters, which below 256 are the ten
  decimal digits and the superscripts two, three and one.
\<close>

definition is_decimal_digit :: "char \<Rightarrow> bool" where
  "is_decimal_digit c = (48 \<le> (of_char c :: nat) \<and> (of_char c :: nat) \<le> 57)"

definition isdigit :: "string \<Rightarrow> bool" where
  "isdigit s = (s \<noteq> [] \<and>
     list_all (\<lambda>c. is_decimal_digit c \<or> of_char c \<in> set [178, 179, 185 :: nat]) s)"

text \<open>\<open>str(n)\<close> for an integer: its decimal digits, with a minus sign when negative.\<close>

definition digit_char :: "nat \<Rightarrow> char" where
  "digit_char d = ''0123456789'' ! d"

fun str_nat :: "nat \<Rightarrow> string" where
  "str_nat n = (if n < 10 then [digit_char n] else str_nat (n div 10) @ [digit_char (n mod 10)])"

declare str_nat.simps [simp del]

definition str_int :: "int \<Rightarrow> string" where
  "str_int i = (if i < 0 then CHR ''-'' # str_nat (nat (- i)) else str_nat (nat i))"

text \<open>
  \<open>int(s)\<close>: surrounding whitespace is dropped, one sign is allowed, and the rest must
  be decimal digits, single underscores allowed between them; anything else is a
  \<open>ValueError\<close>, here \<open>None\<close>.
\<close>

definition digits_value :: "string \<Rightarrow> nat" where
  "digits_value s = foldl (\<lambda>a c. 10 * a + (of_char c - 48)) 0 s"

fun valid_int_body :: "string \<Rightarrow> bool" where
  "valid_int_body [] = False"
| "valid_int_body [c] = is_decimal_digit c"
| "valid_int_body (c # d # r) =
     (is_decimal_digit c \<and> (if d = CHR ''_'' then valid_int_body r else valid_int_body (d # r)))"

definition py_int :: "string \<Rightarrow> int option" where
  "py_int s =
     (let t = strip s;
          neg = (t \<noteq> [] \<and> hd t = CHR ''-'');
          body = (if t \<noteq> [] \<and> (hd t = CHR ''-'' \<or> hd t = CHR ''+'') then tl t else t)
      in if valid_int_body body
         then Some ((if neg then - 1 else 1) * int (digits_value (filter is_decimal_digit body)))
         else None)"

text \<open>The format \<open>{num:04d}\<close>: at least four characters, zeros after the sign.\<close>

definition zero_pad :: "nat \<Rightarrow> string \<Rightarrow> string" where
  "zero_pad w s = replicate (w - length s) CHR ''0'' @ s"

definition format_04d :: "int \<Rightarrow> string" where
  "format_04d num =
     (if num < 0 then CHR ''-'' # zero_pad 3 (str_nat (nat (- num)))
      else zero_pad 4 (str_nat (nat num)))"

section \<open>Voucher numbering\<close>

text \<open>\<open>Voucher.objects.order_by('-id').first()\<close>: the row with the greatest primary key.\<close>

fun last_voucher :: "voucher list \<Rightarrow> voucher option" where
  "last_voucher [] = None"
| "last_voucher (v # vs) =
     (case last_voucher vs of
        None \<Rightarrow> Some v
      | Some w \<Rightarrow> if voucher_id w < voucher_id v then Some v else Some w)"

text \<open>
  The first half of \<open>Voucher.save\<close>: an object without number takes the number after the
  one of the last voucher. \<open>int(...)\<close> may raise \<open>ValueError\<close>.
\<close>

definition assign_voucher_number :: "voucher list \<Rightarrow> voucher \<Rightarrow> string + voucher" where
  "assign_voucher_number vs self =
     (if voucher_number self \<noteq> [] then Inr self
      else
        (case last_voucher vs of
           None \<Rightarrow> Inr (self\<lparr>voucher_number := ''VCH0001''\<rparr>)
         | Some lv \<Rightarrow>
             if take 3 (voucher_number lv) = ''VCH''
             then (case py_int (drop 3 (voucher_number lv)) of
                     None \<Rightarrow> Inl ''ValueError''
                   | Some n \<Rightarrow> Inr (self\<lparr>voucher_number := ''VCH'' @ format_04d (n + 1)\<rparr>))
             else Inr (self\<lparr>voucher_number := ''VCH0001''\<rparr>)))"

text \<open>
  The second half, \<open>super().save()\<close>, inserts the row: the primary key is the next one of
  the sequence, and the unique constraint on \<open>voucher_number\<close> rejects a number that is
  already stored.
\<close>

definition next_voucher_id :: "voucher list \<Rightarrow> nat" where
  "next_voucher_id vs = Suc (fold max (map voucher_id vs) 0)"

definition voucher_save :: "database \<Rightarrow> voucher \<Rightarrow> string + (database \<times> voucher)" where
  "voucher_save db self =
     (case assign_voucher_number (vouchers db) self of
        Inl e \<Rightarrow> Inl e
      | Inr s \<Rightarrow>
          if voucher_number s \<in> set (map voucher_number (vouchers db))
          then Inl ''IntegrityError''
          else
            (let s' = s\<lparr>voucher_id := next_voucher_id (vouchers db)\<rparr>
             in Inr (db\<lparr>vouchers := vouchers db @ [s']\<rparr>, s')))"

section \<open>Approver resolution\<close>

text \<open>\<open>ActiveApprovalDesignation.objects.filter(is_active=True).values_list('designation__id')\<close>\<close>

definition active_des_ids :: "database \<Rightarrow> nat list" where
  "active_des_ids db = map aad_designation (filter is_active (active_designations db))"

text \<open>\<open>designation__id__in=active_des_ids\<close>: a profile without designation matches nothing.\<close>

definition designation_in :: "nat list \<Rightarrow> user_profile \<Rightarrow> bool" where
  "designation_in ids p =
     (case profile_designation p of None \<Rightarrow> False | Some d \<Rightarrow> d \<in> set ids)"

text \<open>
  \<open>Voucher.required_approvers\<close>: the profile table joined with its user and the user's
  groups, one row per matching membership; \<open>distinct()\<close> collapses equal rows of the
  selected columns (profile and, by \<open>select_related\<close>, user); the usernames are read off
  the rows that remain. The voucher itself is not consulted.
\<close>

definition required_approvers :: "database \<Rightarrow> voucher \<Rightarrow> string list" where
  "required_approvers db self =
     map (\<lambda>(profile, u). username u)
       (remdups [(profile, u).
          profile \<leftarrow> profiles db, u \<leftarrow> users db, user_id u = profile_user profile,
          g \<leftarrow> groups u, g = ''Admin Staff'',
          designation_in (active_des_ids db) profile])"

text \<open>
  \<open>VoucherSerializer.get_required_approvers\<close>: the same question asked from the user
  table, joined with groups and the reverse one-to-one profile; \<open>distinct()\<close> acts on the
  single selected column.
\<close>

definition get_required_approvers :: "database \<Rightarrow> voucher \<Rightarrow> string list" where
  "get_required_approvers db obj =
     remdups [username u.
       u \<leftarrow> users db, g \<leftarrow> groups u, g = ''Admin Staff'',
       p \<leftarrow> profiles db, profile_user p = user_id u,
       designation_in (active_des_ids db) p]"

section \<open>Approval consensus\<close>

text \<open>\<open>self.approvals\<close>, the reverse relation of \<open>VoucherApproval.voucher\<close>.\<close>

definition approvals_of :: "database \<Rightarrow> voucher \<Rightarrow> voucher_approval list" where
  "approvals_of db self = filter (\<lambda>a. approval_voucher a = voucher_id self) (approvals db)"

text \<open>The UPDATE of the status column by primary key.\<close>

definition save_status :: "database \<Rightarrow> voucher \<Rightarrow> database" where
  "save_status db self =
     db\<lparr>vouchers := map (\<lambda>v. if voucher_id v = voucher_id self
                               then v\<lparr>status := status self\<rparr> else v) (vouchers db)\<rparr>"

text \<open>
  \<open>self.save(update_fields=['status'])\<close>. The overridden \<open>save\<close> runs its numbering step
  first: nothing for a voucher that has a number; for one that has none, a number for
  the object in memory, or a \<open>ValueError\<close>. Then the status column alone is written, by
  primary key; when no row has that key the update affects no row and Django raises
  \<open>DatabaseError\<close>.
\<close>

definition save_update_fields_status ::
  "database \<Rightarrow> voucher \<Rightarrow> string + (database \<times> voucher)" where
  "save_update_fields_status db self =
     (case assign_voucher_number (vouchers db) self of
        Inl e \<Rightarrow> Inl e
      | Inr s \<Rightarrow>
          if list_ex (\<lambda>v. voucher_id v = voucher_id s) (vouchers db)
          then Inr (save_status db s, s)
          else Inl ''DatabaseError'')"

text \<open>
  \<open>Voucher._update_status_if_all_approved\<close>; answers the store and the mutated object, or
  the exception of \<open>save\<close>.
\<close>

definition update_status_if_all_approved ::
  "database \<Rightarrow> voucher \<Rightarrow> string + (database \<times> voucher)" where
  "update_status_if_all_approved db self =
     (let required = required_approvers db self in
      if required = [] then Inr (db, self)
      else
        let approved_count =
              length (filter (\<lambda>a. approval_status a = ''APPROVED'') (approvals_of db self));
            has_rejection =
              list_ex (\<lambda>a. approval_status a = ''REJECTED'') (approvals_of db self);
            self' = (if has_rejection then self\<lparr>status := ''REJECTED''\<rparr>
                     else if approved_count = length required then self\<lparr>status := ''APPROVED''\<rparr>
                     else self\<lparr>status := ''PENDING''\<rparr>)
        in save_update_fields_status db self')"

text \<open>
  \<open>VoucherApproval.objects.update_or_create(voucher=..., approver=..., defaults={'status': ...})\<close>.
  No row for the pair: one is inserted, and \<open>auto_now_add\<close> stamps \<open>approved_at\<close> with the
  clock. One row: its status is overwritten; \<open>auto_now_add\<close> fires on insertion only, so
  \<open>approved_at\<close> keeps its value. Several rows: \<open>MultipleObjectsReturned\<close>.
\<close>

definition approval_rows :: "database \<Rightarrow> nat \<Rightarrow> nat \<Rightarrow> voucher_approval list" where
  "approval_rows db v u = filter (\<lambda>a. approval_voucher a = v \<and> approver a = u) (approvals db)"

definition update_or_create_approval ::
  "database \<Rightarrow> nat \<Rightarrow> nat \<Rightarrow> string \<Rightarrow> nat \<Rightarrow> string + (database \<times> voucher_approval)" where
  "update_or_create_approval db v u st now =
     (case approval_rows db v u of
        [] \<Rightarrow>
          (let a = \<lparr>approval_voucher = v, approver = u, approval_status = st, approved_at = now\<rparr>
           in Inr (db\<lparr>approvals := approvals db @ [a]\<rparr>, a))
      | [a] \<Rightarrow>
          Inr (db\<lparr>approvals :=
                 map (\<lambda>b. if approval_voucher b = v \<and> approver b = u
                           then b\<lparr>approval_status := st\<rparr> else b) (approvals db)\<rparr>,
               a\<lparr>approval_status := st\<rparr>)
      | _ \<Rightarrow> Inl ''MultipleObjectsReturned'')"

text \<open>\<open>request.user\<close>: the row of the session's user, or nobody.\<close>

definition request_user :: "database \<Rightarrow> nat option \<Rightarrow> user option" where
  "request_user db session =
     (case session of None \<Rightarrow> None
      | Some i \<Rightarrow> find (\<lambda>u. user_id u = i) (users db))"

definition in_group :: "user \<Rightarrow> string \<Rightarrow> bool" where
  "in_group u g = (g \<in> set (groups u))"

text \<open>
  \<open>VoucherApprovalAPI\<close>: \<open>AdminStaffRequiredMixin.dispatch\<close> and then \<open>post\<close>. The
  arguments are the store, the session's user id, the \<open>pk\<close> of the URL, the submitted
  \<open>status\<close> (absent when the request carries none) and the clock. The upsert and the
  recomputation run inside \<open>transaction.atomic()\<close>: an exception undoes both.
\<close>

definition approval_post ::
  "database \<Rightarrow> nat option \<Rightarrow> nat \<Rightarrow> string option \<Rightarrow> nat \<Rightarrow> response \<times> database" where
  "approval_post db session pk status_choice now =
     (case request_user db session of
        None \<Rightarrow> (Redirect ''login'', db)
      | Some u \<Rightarrow>
          if \<not> (in_group u ''Admin Staff'' \<or> is_superuser u) then (Redirect ''home'', db)
          else
            (case find (\<lambda>v. voucher_id v = pk) (vouchers db) of
               None \<Rightarrow> (Http404, db)
             | Some voucher \<Rightarrow>
                 (case (case status_choice of
                          None \<Rightarrow> None
                        | Some s \<Rightarrow> if s \<in> set [''APPROVED'', ''REJECTED''] then Some s else None) of
                    None \<Rightarrow> (Response 400 (Errors [(''status'', ''Invalid choice.'')]), db)
                  | Some st \<Rightarrow>
                      if username u \<notin> set (required_approvers db voucher)
                      then (Response 403
                              (Errors [(''error'',
                                        ''You are not authorized to approve this voucher.'')]),
                            db)
                      else
                        (case update_or_create_approval db (voucher_id voucher) (user_id u) st now of
                           Inl e \<Rightarrow> (Uncaught e, db)
                         | Inr (db1, approval) \<Rightarrow>
                             (case update_status_if_all_approved db1 voucher of
                                Inl e \<Rightarrow> (Uncaught e, db)
                              | Inr (db2, voucher') \<Rightarrow>
                                  (Response 200
                                     (ApprovalData voucher' (username u) (approved_at approval)),
                                   db2))))))"

section \<open>Approval control\<close>

text \<open>
  An element of the submitted list is observed only through \<open>str(x)\<close>: an integer by
  its decimal digits, a string by itself.
\<close>

datatype json = JInt int | JStr string

fun py_str :: "json \<Rightarrow> string" where
  "py_str (JInt i) = str_int i"
| "py_str (JStr s) = s"

text \<open>
  \<open>ActiveApprovalDesignation.objects.update_or_create(designation=..., defaults={...})\<close>.
  A new row gets the flag, the actor and the clock; an existing row is overwritten with
  them (\<open>auto_now\<close> stamps \<open>updated_at\<close> on every save); several rows for one designation
  raise \<open>MultipleObjectsReturned\<close>.
\<close>

definition aad_rows :: "database \<Rightarrow> nat \<Rightarrow> active_approval_designation list" where
  "aad_rows db d = filter (\<lambda>a. aad_designation a = d) (active_designations db)"

definition update_or_create_active ::
  "database \<Rightarrow> nat \<Rightarrow> bool \<Rightarrow> nat \<Rightarrow> nat \<Rightarrow> string + database" where
  "update_or_create_active db d flag actor now =
     (case aad_rows db d of
        [] \<Rightarrow>
          Inr (db\<lparr>active_designations := active_designations db @
                 [\<lparr>aad_designation = d, is_active = flag, updated_by = actor, updated_at = now\<rparr>]\<rparr>)
      | [a] \<Rightarrow>
          Inr (db\<lparr>active_designations :=
                 map (\<lambda>b. if aad_designation b = d
                           then b\<lparr>is_active := flag, updated_by := actor, updated_at := now\<rparr>
                           else b) (active_designations db)\<rparr>)
      | _ \<Rightarrow> Inl ''MultipleObjectsReturned'')"

text \<open>
  The loop of \<open>ApprovalControlAPI.post\<close> over \<open>Designation.objects.all()\<close>. It runs outside
  any transaction, so an exception leaves the rows written so far.
\<close>

fun control_loop ::
  "designation list \<Rightarrow> json list \<Rightarrow> nat \<Rightarrow> nat \<Rightarrow> database \<Rightarrow> string option \<times> database" where
  "control_loop [] active_ids actor now db = (None, db)"
| "control_loop (designation # rest) active_ids actor now db =
     (let is_active = (str_nat (designation_id designation) \<in> set (map py_str active_ids))
      in case update_or_create_active db (designation_id designation) is_active actor now of
           Inl e \<Rightarrow> (Some e, db)
         | Inr db1 \<Rightarrow> control_loop rest active_ids actor now db1)"

text \<open>
  \<open>request.data.get('active_designations', [])\<close>: absent, something that is not a list, or
  a list.
\<close>

datatype payload = Absent | NotAList | IdList "json list"

text \<open>
  \<open>ApprovalControlAPI.post\<close> behind the permission class \<open>IsAuthenticated\<close>, which turns an
  anonymous request away before the view runs.
\<close>

definition control_post ::
  "database \<Rightarrow> nat option \<Rightarrow> payload \<Rightarrow> nat \<Rightarrow> response \<times> database" where
  "control_post db session data now =
     (case request_user db session of
        None \<Rightarrow>
          (Response 403 (Errors [(''detail'', ''Authentication credentials were not provided.'')]),
           db)
      | Some u \<Rightarrow>
          if \<not> is_superuser u then (Response 403 (Errors [(''error'', ''Superuser only'')]), db)
          else
            (case (case data of Absent \<Rightarrow> Some [] | NotAList \<Rightarrow> None | IdList l \<Rightarrow> Some l) of
               None \<Rightarrow>
                 (Response 400
                    (Errors [(''error'', ''active_designations must be a list of IDs'')]), db)
             | Some active_ids \<Rightarrow>
                 (case control_loop (designations db) active_ids (user_id u) now db of
                    (Some e, db') \<Rightarrow> (Uncaught e, db')
                  | (None, db') \<Rightarrow>
                      (Response 200
                         (ControlData
                            (''Approval workflow updated. '' @ str_nat (length active_ids) @
                             '' active designations.'')
                            (length active_ids)),
                       db'))))"

section \<open>Voucher submission\<close>

text \<open>
  The keys of the submitted form. \<open>ParticularDescription i\<close> stands for the key
  \<open>particulars[i][description]\<close>, and likewise for the amount and the attachment of row
  \<open>i\<close>; \<open>Field n\<close> is the plain key \<open>n\<close>. The request carries the session's user id,
  \<open>request.POST\<close> and \<open>request.FILES\<close>.
\<close>

datatype form_key =
  Field string
  | ParticularDescription nat
  | ParticularAmount nat
  | ParticularAttachment nat

record request =
  session_user :: "nat option"
  POST :: "(form_key \<times> string) list"
  FILES :: "(form_key \<times> uploaded_file) list"

text \<open>\<open>QueryDict.get\<close> answers the last value stored under a key.\<close>

definition query_get :: "(form_key \<times> 'a) list \<Rightarrow> form_key \<Rightarrow> 'a option" where
  "query_get d k = map_of (rev d) k"

definition get_or_empty :: "(form_key \<times> string) list \<Rightarrow> form_key \<Rightarrow> string" where
  "get_or_empty d k = (case query_get d k of None \<Rightarrow> [] | Some v \<Rightarrow> v)"

text \<open>
  \<open>amount <= 0\<close> on a \<open>Decimal\<close>: comparing a NaN raises \<open>InvalidOperation\<close>, here
  \<open>None\<close>; a finite value is a signed coefficient with an exponent.
\<close>

fun le_zero :: "decimal \<Rightarrow> bool option" where
  "le_zero NaN = None"
| "le_zero (Infinity negative) = Some negative"
| "le_zero (Finite coefficient exponent) = Some (coefficient \<le> 0)"

text \<open>
  What the view hands to the serializer, and what the serializer's fields hand on once
  they accepted it.
\<close>

record particular_data =
  pd_description :: string
  pd_amount :: decimal
  pd_attachment :: "uploaded_file option"

record serializer_data =
  sd_voucher_date :: "string option"
  sd_payment_type :: "string option"
  sd_name_title :: "string option"
  sd_pay_to :: "string option"
  sd_cheque_number :: "string option"
  sd_attachment :: uploaded_file
  sd_particulars :: "particular_data list"

record validated_data =
  vd_voucher_date :: string
  vd_payment_type :: string
  vd_name_title :: string
  vd_pay_to :: string
  vd_cheque_number :: "string option"
  vd_attachment :: uploaded_file
  vd_particulars :: "particular_data list"

text \<open>
  The libraries the submission path calls and the repository does not contain:
  \<open>decimal.Decimal(s)\<close> (\<open>None\<close> is \<open>InvalidOperation\<close>), \<open>str\<close> of a \<open>Decimal\<close>, and the
  validation that the REST framework runs for the declared fields of
  \<open>VoucherSerializer\<close> (choices, lengths, date and decimal formats, file extensions),
  which answers the errors by field or the converted values. Every result below holds
  for whatever these three are.
\<close>

record framework =
  Decimal :: "string \<Rightarrow> decimal option"
  decimal_str :: "decimal \<Rightarrow> string"
  to_internal_value :: "serializer_data \<Rightarrow> (string \<times> string) list + validated_data"

text \<open>
  The outcome of a validation step: a value, a \<open>ValidationError\<close> with its entries, or
  another exception. Errors of two fields are collected; an exception ends the run.
\<close>

datatype 'a checked = Valid 'a | Invalid "(string \<times> string) list" | Raised string

fun both :: "'a checked \<Rightarrow> 'b checked \<Rightarrow> ('a \<times> 'b) checked" where
  "both (Raised x) _ = Raised x"
| "both (Invalid e) (Raised x) = Raised x"
| "both (Invalid e) (Invalid f) = Invalid (e @ f)"
| "both (Invalid e) (Valid b) = Invalid e"
| "both (Valid a) (Raised x) = Raised x"
| "both (Valid a) (Invalid f) = Invalid f"
| "both (Valid a) (Valid b) = Valid (a, b)"

text \<open>A bound on the indices of the description keys, the measure of the loop below.\<close>

fun key_bound :: "(form_key \<times> string) list \<Rightarrow> nat" where
  "key_bound [] = 0"
| "key_bound ((ParticularDescription j, v) # r) = max (Suc j) (key_bound r)"
| "key_bound (kv # r) = key_bound r"

text \<open>
  The loop of \<open>VoucherCreateAPI.post\<close> that rebuilds the particulars, from row \<open>i\<close> with
  the rows \<open>built\<close> so far; \<open>Inl\<close> is the body of the 400 response it returns.
\<close>

function rebuild_particulars ::
  "framework \<Rightarrow> (form_key \<times> string) list \<Rightarrow> (form_key \<times> uploaded_file) list \<Rightarrow>
   nat \<Rightarrow> particular_data list \<Rightarrow> (string \<times> string) + particular_data list" where
  "rebuild_particulars fw data files i built =
     (if ParticularDescription i \<in> fst ` set data then
        (let desc = strip (get_or_empty data (ParticularDescription i));
             amt = strip (get_or_empty data (ParticularAmount i));
             att = query_get files (ParticularAttachment i)
         in if desc \<noteq> [] \<and> amt \<noteq> [] then
              (case Decimal fw amt of
                 None \<Rightarrow> Inl (''particulars'', ''Invalid amount for item '' @ str_nat (i + 1))
               | Some dec \<Rightarrow>
                   (case le_zero dec of
                      None \<Rightarrow> Inl (''particulars'', ''Invalid amount for item '' @ str_nat (i + 1))
                    | Some True \<Rightarrow>
                        Inl (''particulars'', ''Amount must be > 0 for item '' @ str_nat (i + 1))
                    | Some False \<Rightarrow>
                        rebuild_particulars fw data files (i + 1)
                          (built @
                             [\<lparr>pd_description = desc, pd_amount = dec,
                               pd_attachment = att\<rparr>])))
            else rebuild_particulars fw data files (i + 1) built)
      else Inr built)"
  by pat_completeness auto

termination
proof (relation "measure (\<lambda>(fw, data, files, i, built). key_bound data - i)")
  show "wf (measure (\<lambda>(fw, data, files, i, built). key_bound data - i))"
    by simp
next
  fix fw :: framework and data :: "(form_key \<times> string) list"
    and files :: "(form_key \<times> uploaded_file) list" and i :: nat
    and built extended :: "particular_data list"
  assume key: "ParticularDescription i \<in> fst ` set data"
  have "j < key_bound d" if "ParticularDescription j \<in> fst ` set d" for j d
    using that by (induction d rule: key_bound.induct) (force simp: less_max_iff_disj)+
  from this [OF key] have lt: "i < key_bound data" .
  show "((fw, data, files, i + 1, extended), (fw, data, files, i, built))
       \<in> measure (\<lambda>(fw, data, files, i, built). key_bound data - i)"
    using lt by simp
  show "((fw, data, files, i + 1, built), (fw, data, files, i, built))
       \<in> measure (\<lambda>(fw, data, files, i, built). key_bound data - i)"
    using lt by simp
qed

declare rebuild_particulars.simps [simp del]

text \<open>
  \<open>ParticularSerializer.validate_amount\<close> (the value is printed, trimmed and read
  again; the comparison stands outside the \<open>try\<close>),
  \<open>ParticularSerializer.validate_attachment\<close> and \<open>VoucherSerializer.validate_attachment\<close>;
  a file is false when it has no name.
\<close>

definition max_size :: nat where
  "max_size = 5 * 1024 * 1024"

definition validate_amount :: "framework \<Rightarrow> decimal \<Rightarrow> decimal checked" where
  "validate_amount fw v =
     (case Decimal fw (strip (decimal_str fw v)) of
        None \<Rightarrow> Invalid [(''amount'', ''Invalid number format.'')]
      | Some dec \<Rightarrow>
          (case le_zero dec of
             None \<Rightarrow> Raised ''InvalidOperation''
           | Some True \<Rightarrow> Invalid [(''amount'', ''Amount must be greater than 0.'')]
           | Some False \<Rightarrow> Valid dec))"

definition particular_validate_attachment ::
  "uploaded_file option \<Rightarrow> uploaded_file option checked" where
  "particular_validate_attachment v =
     (case v of
        None \<Rightarrow> Valid None
      | Some f \<Rightarrow>
          if file_name f \<noteq> [] \<and> file_size f > 5 * 1024 * 1024
          then Invalid [(''attachment'', ''File size cannot exceed 5 MB.'')]
          else Valid (Some f))"

definition validate_attachment :: "uploaded_file \<Rightarrow> uploaded_file checked" where
  "validate_attachment v =
     (if file_name v = [] then Invalid [(''attachment'', ''Attachment is required.'')]
      else if file_size v > max_size
      then Invalid [(''attachment'', ''File size cannot exceed 5 MB.'')]
      else Valid v)"

text \<open>The two methods on one particular, and on the list of them.\<close>

definition particular_hooks :: "framework \<Rightarrow> particular_data \<Rightarrow> particular_data checked" where
  "particular_hooks fw p =
     (case both (validate_amount fw (pd_amount p))
                (particular_validate_attachment (pd_attachment p)) of
        Raised x \<Rightarrow> Raised x
      | Invalid e \<Rightarrow> Invalid e
      | Valid (a, f) \<Rightarrow> Valid (p\<lparr>pd_amount := a, pd_attachment := f\<rparr>))"

fun all_particular_hooks ::
  "framework \<Rightarrow> particular_data list \<Rightarrow> particular_data list checked" where
  "all_particular_hooks fw [] = Valid []"
| "all_particular_hooks fw (p # ps) =
     (case both (particular_hooks fw p) (all_particular_hooks fw ps) of
        Raised x \<Rightarrow> Raised x
      | Invalid e \<Rightarrow> Invalid e
      | Valid (q, qs) \<Rightarrow> Valid (q # qs))"

text \<open>
  \<open>VoucherSerializer.validate\<close>. An amount is always present in a row of the model, so
  the test \<open>p.get('amount') is None\<close> never fires; \<open>.strip()\<close> on an absent cheque
  number raises \<open>AttributeError\<close>.
\<close>

definition validate :: "validated_data \<Rightarrow> validated_data checked" where
  "validate data =
     (if vd_particulars data = []
      then Invalid [(''particulars'', ''At least one particular is required.'')]
      else if list_ex (\<lambda>p. pd_description p = []) (vd_particulars data)
      then Invalid [(''particulars'', ''Each particular must have description and amount.'')]
      else if file_name (vd_attachment data) = []
      then Invalid [(''attachment'', ''This field is required.'')]
      else if vd_payment_type data = ''CHEQUE'' then
        (case vd_cheque_number data of
           None \<Rightarrow> Raised ''AttributeError''
         | Some c \<Rightarrow>
             (let cheque_num = strip c
              in if cheque_num = []
                 then Invalid [(''cheque_number'',
                                ''Cheque number is required for Cheque payments.'')]
                 else if \<not> isdigit cheque_num
                 then Invalid [(''cheque_number'', ''Cheque number must contain only digits.'')]
                 else Valid (data\<lparr>vd_cheque_number := Some cheque_num\<rparr>)))
      else Valid (data\<lparr>vd_cheque_number := None\<rparr>))"

text \<open>
  \<open>serializer.is_valid()\<close>: the framework's fields, the methods above on the values
  they hand on, then \<open>validate\<close>. When the framework rejects a field the answer
  carries its entries only, without those the methods would add for other fields.
\<close>

definition is_valid :: "framework \<Rightarrow> serializer_data \<Rightarrow> validated_data checked" where
  "is_valid fw data =
     (case to_internal_value fw data of
        Inl errors \<Rightarrow> Invalid errors
      | Inr vd \<Rightarrow>
          (case both (validate_attachment (vd_attachment vd))
                     (all_particular_hooks fw (vd_particulars vd)) of
             Raised x \<Rightarrow> Raised x
           | Invalid e \<Rightarrow> Invalid e
           | Valid (att, ps) \<Rightarrow> validate (vd\<lparr>vd_attachment := att, vd_particulars := ps\<rparr>)))"

text \<open>
  \<open>VoucherSerializer.create\<close>: the voucher (an object without primary key, here 0, and
  without number, with the default status) and then one row per particular.
\<close>

definition create :: "database \<Rightarrow> validated_data \<Rightarrow> nat \<Rightarrow> nat \<Rightarrow> string + (database \<times> voucher)" where
  "create db validated user now =
     (case voucher_save db
             \<lparr>voucher_id = 0, voucher_number = [],
              voucher_date = vd_voucher_date validated,
              payment_type = vd_payment_type validated,
              name_title = vd_name_title validated,
              pay_to = vd_pay_to validated,
              attachment = Some (vd_attachment validated),
              cheque_number = vd_cheque_number validated,
              created_by = user, created_at = now, status = ''PENDING''\<rparr> of
        Inl e \<Rightarrow> Inl e
      | Inr (db1, v) \<Rightarrow>
          Inr (db1\<lparr>particulars := particulars db1 @
                 map (\<lambda>p. \<lparr>particular_voucher = voucher_id v,
                            description = pd_description p,
                            amount = pd_amount p,
                            particular_attachment = pd_attachment p\<rparr>)
                     (vd_particulars validated)\<rparr>, v))"

text \<open>
  \<open>VoucherCreateAPI\<close>: \<open>AccountantRequiredMixin.dispatch\<close> and then \<open>post\<close>.
\<close>

definition voucher_create_post ::
  "framework \<Rightarrow> database \<Rightarrow> request \<Rightarrow> nat \<Rightarrow> response \<times> database" where
  "voucher_create_post fw db req now =
     (case request_user db (session_user req) of
        None \<Rightarrow> (Redirect ''login'', db)
      | Some u \<Rightarrow>
          if \<not> in_group u ''Accountants'' then (Redirect ''home'', db)
          else
            (case rebuild_particulars fw (POST req) (FILES req) 0 [] of
               Inl e \<Rightarrow> (Response 400 (Errors [e]), db)
             | Inr ps \<Rightarrow>
                 if ps = []
                 then (Response 400
                         (Errors [(''particulars'', ''At least one particular is required.'')]),
                       db)
                 else
                   (case query_get (FILES req) (Field ''attachment'') of
                      None \<Rightarrow>
                        (Response 400
                           (Errors [(''attachment'', ''Main attachment is required.'')]), db)
                    | Some main \<Rightarrow>
                        (let chq =
                               (if query_get (POST req) (Field ''payment_type'') = Some ''CHEQUE''
                                then Some (strip (get_or_empty (POST req) (Field ''cheque_number'')))
                                else None);
                             serializer_data =
                               \<lparr>sd_voucher_date = query_get (POST req) (Field ''voucher_date''),
                                sd_payment_type = query_get (POST req) (Field ''payment_type''),
                                sd_name_title = query_get (POST req) (Field ''name_title''),
                                sd_pay_to = query_get (POST req) (Field ''pay_to''),
                                sd_cheque_number = chq,
                                sd_attachment = main,
                                sd_particulars = ps\<rparr>
                         in case is_valid fw serializer_data of
                              Invalid errors \<Rightarrow> (Response 400 (Errors errors), db)
                            | Raised x \<Rightarrow> (Uncaught x, db)
                            | Valid validated \<Rightarrow>
                                (case create db validated (user_id u) now of
                                   Inl x \<Rightarrow> (Uncaught x, db)
                                 | Inr (db', v) \<Rightarrow>
                                     (Response 201
                                        (VoucherData v
                                           (filter (\<lambda>p. particular_voucher p = voucher_id v)
                                              (particulars db'))),
                                      db'))))))"

section \<open>Schema constraints and invariants\<close>



definition one_row_per_designation :: "database \<Rightarrow> bool" where
  "one_row_per_designation db = distinct (map aad_designation (active_designations db))"

text \<open>
  The vouchers that \<open>Voucher.save\<close> numbered: every number is \<open>VCH\<close> and the padded
  digits of a positive number, the primary keys differ, and a later key carries a greater
  number. The empty table satisfies it and \<open>voucher_save\<close> keeps it.
\<close>

definition numeric_suffix :: "voucher \<Rightarrow> int" where
  "numeric_suffix v = (case py_int (drop 3 (voucher_number v)) of None \<Rightarrow> 0 | Some n \<Rightarrow> n)"

definition save_numbered :: "voucher \<Rightarrow> bool" where
  "save_numbered v =
     (0 < numeric_suffix v \<and> voucher_number v = ''VCH'' @ format_04d (numeric_suffix v))"

definition numbered_in_order :: "voucher list \<Rightarrow> bool" where
  "numbered_in_order vs =
     (list_all save_numbered vs \<and> distinct (map voucher_id vs) \<and>
      (\<forall>v \<in> set vs. \<forall>w \<in> set vs.
         voucher_id v < voucher_id w \<longrightarrow> numeric_suffix v < numeric_suffix w))"

section \<open>The specification's words\<close>

text \<open>The status state machine of the consensus recomputation.\<close>

definition recomputed_status :: "string list \<Rightarrow> voucher_approval list \<Rightarrow> string \<Rightarrow> string" where
  "recomputed_status required stored old =
     (if required = [] then old
      else if \<exists>a \<in> set stored. approval_status a = ''REJECTED'' then ''REJECTED''
      else if length (filter (\<lambda>a. approval_status a = ''APPROVED'') stored) = length required
      then ''APPROVED''
      else ''PENDING'')"

text \<open>The activation state: which designation carries which flag.\<close>

definition activation :: "database \<Rightarrow> (nat \<times> bool) list" where
  "activation db = map (\<lambda>a. (aad_designation a, is_active a)) (active_designations db)"

text \<open>
  Row \<open>i\<close> of a submission is reached when the description keys of all rows up to
  \<open>i\<close> are present; it is blank when its trimmed description or amount is empty; the
  verdict on its amount is the message that rejects it, if any.
\<close>

definition row_submitted :: "request \<Rightarrow> nat \<Rightarrow> bool" where
  "row_submitted req i = (\<forall>j \<le> i. ParticularDescription j \<in> fst ` set (POST req))"

definition row_blank :: "request \<Rightarrow> nat \<Rightarrow> bool" where
  "row_blank req i =
     (strip (get_or_empty (POST req) (ParticularDescription i)) = [] \<or>
      strip (get_or_empty (POST req) (ParticularAmount i)) = [])"

definition amount_verdict :: "framework \<Rightarrow> request \<Rightarrow> nat \<Rightarrow> string option" where
  "amount_verdict fw req i =
     (case Decimal fw (strip (get_or_empty (POST req) (ParticularAmount i))) of
        None \<Rightarrow> Some ''Invalid amount for item ''
      | Some d \<Rightarrow>
          (case le_zero d of
             None \<Rightarrow> Some ''Invalid amount for item ''
           | Some True \<Rightarrow> Some ''Amount must be > 0 for item ''
           | Some False \<Rightarrow> None))"

section \<open>Example data\<close>

text \<open>
  Designations A (active) and B (inactive); Admin Staff users \<open>u1\<close> on A and \<open>u2\<close> on B,
  an accountant and a superuser; one voucher that \<open>u1\<close> approved at time 5.
\<close>

definition demo_voucher :: voucher where
  "demo_voucher =
     \<lparr>voucher_id = 1, voucher_number = ''VCH0001'', voucher_date = ''2024-05-01'',
      payment_type = ''CASH'', name_title = ''MR'', pay_to = ''Acme'',
      attachment = Some \<lparr>file_name = ''bill.pdf'', file_size = 1000\<rparr>,
      cheque_number = None, created_by = 3, created_at = 2, status = ''APPROVED''\<rparr>"

definition demo_db :: database where
  "demo_db =
     \<lparr>users =
        [\<lparr>user_id = 1, username = ''u1'', is_superuser = False, groups = [''Admin Staff'']\<rparr>,
         \<lparr>user_id = 2, username = ''u2'', is_superuser = False, groups = [''Admin Staff'']\<rparr>,
         \<lparr>user_id = 3, username = ''acc'', is_superuser = False, groups = [''Accountants'']\<rparr>,
         \<lparr>user_id = 4, username = ''root'', is_superuser = True, groups = []\<rparr>],
      designations =
        [\<lparr>designation_id = 1, designation_name = ''A''\<rparr>,
         \<lparr>designation_id = 2, designation_name = ''B''\<rparr>],
      profiles =
        [\<lparr>profile_id = 1, profile_user = 1, profile_designation = Some 1\<rparr>,
         \<lparr>profile_id = 2, profile_user = 2, profile_designation = Some 2\<rparr>],
      active_designations =
        [\<lparr>aad_designation = 1, is_active = True, updated_by = 4, updated_at = 1\<rparr>,
         \<lparr>aad_designation = 2, is_active = False, updated_by = 4, updated_at = 1\<rparr>],
      vouchers = [demo_voucher],
      particulars =
        [\<lparr>particular_voucher = 1, description = ''Taxi'', amount = Finite 1250 (-2),
          particular_attachment = None\<rparr>],
      approvals =
        [\<lparr>approval_voucher = 1, approver = 1, approval_status = ''APPROVED'', approved_at = 5\<rparr>]\<rparr>"

text \<open>
  The same store with both designations active, so that \<open>u1\<close> and \<open>u2\<close> are required, and
  two vouchers: the first pending with the approval of \<open>u1\<close>, the second rejected by \<open>u1\<close>.
\<close>

definition rejected_voucher :: voucher where
  "rejected_voucher =
     demo_voucher\<lparr>voucher_id := 2, voucher_number := ''VCH0002'', status := ''REJECTED''\<rparr>"

definition two_voucher_db :: database where
  "two_voucher_db =
     demo_db
       \<lparr>active_designations :=
          [\<lparr>aad_designation = 1, is_active = True, updated_by = 4, updated_at = 1\<rparr>,
           \<lparr>aad_designation = 2, is_active = True, updated_by = 4, updated_at = 3\<rparr>],
        vouchers := [demo_voucher\<lparr>status := ''PENDING''\<rparr>, rejected_voucher],
        approvals :=
          [\<lparr>approval_voucher = 1, approver = 1, approval_status = ''APPROVED'', approved_at = 5\<rparr>,
           \<lparr>approval_voucher = 2, approver = 1, approval_status = ''REJECTED'',
             approved_at = 6\<rparr>]\<rparr>"

text \<open>A voucher object as \<open>create\<close> builds it, not yet saved.\<close>

definition demo_new_voucher :: voucher where
  "demo_new_voucher =
     \<lparr>voucher_id = 0, voucher_number = '''', voucher_date = ''2024-05-02'',
      payment_type = ''CHEQUE'', name_title = ''MS'', pay_to = ''Bolt'',
      attachment = Some \<lparr>file_name = ''inv.png'', file_size = 2000\<rparr>,
      cheque_number = Some ''1204'', created_by = 3, created_at = 8, status = ''PENDING''\<rparr>"

text \<open>
  Stand-ins for the libraries in the examples: a reader and a printer of plain decimal
  literals (sign, digits, fraction), and the declared constraints of the serializer's
  fields on a date of the form YYYY-MM-DD.
\<close>

definition demo_Decimal :: "string \<Rightarrow> decimal option" where
  "demo_Decimal s =
     (let t = strip s;
          neg = (t \<noteq> [] \<and> hd t = CHR ''-'');
          body = (if t \<noteq> [] \<and> (hd t = CHR ''-'' \<or> hd t = CHR ''+'') then tl t else t);
          whole = takeWhile is_decimal_digit body;
          rest = dropWhile is_decimal_digit body;
          sgn = (if neg then - 1 else 1 :: int)
      in if body = ''NaN'' then Some NaN
         else if body = ''Infinity'' \<or> body = ''Inf'' then Some (Infinity neg)
         else if rest = [] then
           (if whole = [] then None else Some (Finite (sgn * int (digits_value whole)) 0))
         else if hd rest = CHR ''.'' \<and> list_all is_decimal_digit (tl rest) \<and>
                 (whole \<noteq> [] \<or> tl rest \<noteq> [])
         then Some (Finite (sgn * int (digits_value (whole @ tl rest))) (- int (length (tl rest))))
         else None)"

definition demo_decimal_str :: "decimal \<Rightarrow> string" where
  "demo_decimal_str d =
     (case d of
        NaN \<Rightarrow> ''NaN''
      | Infinity negative \<Rightarrow> (if negative then ''-Infinity'' else ''Infinity'')
      | Finite c e \<Rightarrow>
          (let sign = (if c < 0 then ''-'' else '''');
               k = nat (- e);
               ds = zero_pad (k + 1) (str_nat (nat \<bar>c\<bar>))
           in if 0 \<le> e then sign @ str_nat (nat \<bar>c\<bar>) @ replicate (nat e) CHR ''0''
              else sign @ take (length ds - k) ds @ ''.'' @ drop (length ds - k) ds))"

definition extension :: "string \<Rightarrow> string" where
  "extension n = (if CHR ''.'' \<in> set n then rev (takeWhile (\<lambda>c. c \<noteq> CHR ''.'') (rev n)) else [])"

definition demo_file_ok :: "uploaded_file \<Rightarrow> bool" where
  "demo_file_ok f =
     (file_name f \<noteq> [] \<and> 0 < file_size f \<and>
      extension (file_name f) \<in> set [''pdf'', ''jpg'', ''jpeg'', ''png'', ''doc'', ''docx''])"

definition demo_amount_ok :: "decimal \<Rightarrow> bool" where
  "demo_amount_ok d =
     (case d of Finite c e \<Rightarrow> - 2 \<le> e \<and> e \<le> 0 \<and> \<bar>c\<bar> < 10 ^ nat (12 + e) | _ \<Rightarrow> False)"

definition demo_date_ok :: "string \<Rightarrow> bool" where
  "demo_date_ok s =
     (length s = 10 \<and> list_all is_decimal_digit (take 4 s) \<and> s ! 4 = CHR ''-'' \<and>
      list_all is_decimal_digit (take 2 (drop 5 s)) \<and> s ! 7 = CHR ''-'' \<and>
      list_all is_decimal_digit (drop 8 s) \<and>
      digits_value (take 2 (drop 5 s)) \<in> {1..12} \<and> digits_value (drop 8 s) \<in> {1..28})"

definition demo_to_internal_value ::
  "serializer_data \<Rightarrow> (string \<times> string) list + validated_data" where
  "demo_to_internal_value d =
     (case (sd_voucher_date d, sd_payment_type d, sd_name_title d, sd_pay_to d) of
        (Some dt, Some pt, Some nt, Some pay) \<Rightarrow>
          if demo_date_ok dt \<and> pt \<in> set [''CASH'', ''CHEQUE'', ''PETTY_CASH''] \<and>
             nt \<in> set [''MR'', ''MRS'', ''MS''] \<and> strip pay \<noteq> [] \<and> length pay \<le> 200 \<and>
             (case sd_cheque_number d of None \<Rightarrow> True | Some c \<Rightarrow> length c \<le> 20) \<and>
             demo_file_ok (sd_attachment d) \<and>
             list_all (\<lambda>p. strip (pd_description p) \<noteq> [] \<and> length (pd_description p) \<le> 300 \<and>
                            demo_amount_ok (pd_amount p) \<and>
                            (case pd_attachment p of None \<Rightarrow> True | Some f \<Rightarrow> demo_file_ok f))
                      (sd_particulars d)
          then Inr \<lparr>vd_voucher_date = dt, vd_payment_type = pt, vd_name_title = nt,
                    vd_pay_to = strip pay,
                    vd_cheque_number = map_option strip (sd_cheque_number d),
                    vd_attachment = sd_attachment d,
                    vd_particulars =
                      map (\<lambda>p. p\<lparr>pd_description := strip (pd_description p)\<rparr>)
                          (sd_particulars d)\<rparr>
          else Inl [(''fields'', ''A declared field was rejected.'')]
      | _ \<Rightarrow> Inl [(''fields'', ''This field may not be null.'')])"

definition demo_framework :: framework where
  "demo_framework =
     \<lparr>Decimal = demo_Decimal, decimal_str = demo_decimal_str,
      to_internal_value = demo_to_internal_value\<rparr>"

text \<open>
  A submission by the accountant with the given payment type, cheque number and
  particular rows.
\<close>

definition demo_request :: "string \<Rightarrow> string \<Rightarrow> (form_key \<times> string) list \<Rightarrow> request" where
  "demo_request pt chq rows =
     \<lparr>session_user = Some 3,
      POST = [(Field ''voucher_date'', ''2024-05-02''), (Field ''payment_type'', pt),
              (Field ''name_title'', ''MS''), (Field ''pay_to'', ''Bolt''),
              (Field ''cheque_number'', chq)] @ rows,
      FILES = [(Field ''attachment'', \<lparr>file_name = ''inv.png'', file_size = 2000\<rparr>)]\<rparr>"

definition taxi_row :: "(form_key \<times> string) list" where
  "taxi_row = [(ParticularDescription 0, ''Taxi''), (ParticularAmount 0, ''12.50'')]"

definition blank_first_rows :: "(form_key \<times> string) list" where
  "blank_first_rows =
     [(ParticularDescription 0, ''''), (ParticularAmount 0, ''5''),
      (ParticularDescription 1, ''Taxi''), (ParticularAmount 1, ''10'')]"

definition bad_second_rows :: "(form_key \<times> string) list" where
  "bad_second_rows =
     [(ParticularDescription 0, ''Taxi''), (ParticularAmount 0, ''5''),
      (ParticularDescription 1, ''Bus''), (ParticularAmount 1, ''abc'')]"

section \<open>Unfolding for the examples\<close>

lemmas demo_defs = demo_db_def demo_voucher_def

lemmas two_voucher_defs = two_voucher_db_def rejected_voucher_def demo_defs

lemmas approval_defs = approval_post_def request_user_def in_group_def required_approvers_def
  active_des_ids_def designation_in_def update_or_create_approval_def approval_rows_def
  update_status_if_all_approved_def approvals_of_def save_status_def
  save_update_fields_status_def assign_voucher_number_def

lemmas py_defs = py_isspace_def strip_def is_decimal_digit_def isdigit_def digit_char_def
  str_int_def digits_value_def py_int_def zero_pad_def format_04d_def

lemma replicate_numeral: "replicate (numeral k) x = x # replicate (pred_numeral k) x"
  by (simp add: numeral_eq_Suc)

lemmas eval_defs = str_nat.simps py_defs replicate_numeral

lemmas control_defs = control_post_def update_or_create_active_def aad_rows_def
  request_user_def activation_def one_row_per_designation_def

lemmas number_defs = voucher_save_def assign_voucher_number_def next_voucher_id_def
  numeric_suffix_def save_numbered_def numbered_in_order_def

lemmas demo_submit_defs = demo_framework_def demo_Decimal_def demo_decimal_str_def
  demo_to_internal_value_def demo_file_ok_def demo_amount_ok_def demo_date_ok_def
  extension_def demo_request_def taxi_row_def

lemmas submit_defs = voucher_create_post_def request_user_def in_group_def
  rebuild_particulars.simps query_get_def get_or_empty_def is_valid_def validate_def
  validate_amount_def particular_validate_attachment_def validate_attachment_def
  particular_hooks_def create_def max_size_def

lemmas all_eval = submit_defs demo_submit_defs number_defs demo_defs eval_defs Let_def

section \<open>Approver resolution: membership and distinctness\<close>


lemma rows_mem: "(p, u) \<in> set [(profile, u).
          profile \<leftarrow> profiles db, u \<leftarrow> users db, user_id u = profile_user profile,
          g \<leftarrow> groups u, g = ''Admin Staff'',
          designation_in (active_des_ids db) profile] \<longleftrightarrow>
   p \<in> set (profiles db) \<and> u \<in> set (users db) \<and> user_id u = profile_user p \<and>
   ''Admin Staff'' \<in> set (groups u) \<and> designation_in (active_des_ids db) p"
  by (auto split: if_splits)

lemma ra_mem: "n \<in> set (required_approvers db v) \<longleftrightarrow>
   (\<exists>p u. p \<in> set (profiles db) \<and> u \<in> set (users db) \<and> user_id u = profile_user p \<and>
   ''Admin Staff'' \<in> set (groups u) \<and> designation_in (active_des_ids db) p \<and> n = username u)"
  unfolding required_approvers_def set_map set_remdups image_iff Bex_def
  apply (simp only: split_paired_Ex rows_mem)
  apply auto
  done

lemma gra_mem: "n \<in> set (get_required_approvers db v) \<longleftrightarrow>
   (\<exists>p u. p \<in> set (profiles db) \<and> u \<in> set (users db) \<and> user_id u = profile_user p \<and>
   ''Admin Staff'' \<in> set (groups u) \<and> designation_in (active_des_ids db) p \<and> n = username u)"
  unfolding get_required_approvers_def 
  apply (simp split: if_splits add: ex_in_conv[symmetric] Bex_def del: ex_in_conv)
  apply (rule iffI)
   apply (elim exE conjE)
   apply (metis)
  apply (elim exE conjE)
  apply (metis)
  done



section \<open>Approval consensus: the upsert and the recomputation\<close>

lemma ra_cong:
  "users db' = users db \<Longrightarrow> profiles db' = profiles db \<Longrightarrow>
   active_designations db' = active_designations db \<Longrightarrow>
   required_approvers db' v' = required_approvers db v"
proof -
  assume a: "users db' = users db" "profiles db' = profiles db"
    "active_designations db' = active_designations db"
  then have "active_des_ids db' = active_des_ids db"
    by (simp add: active_des_ids_def)
  with a show ?thesis
    by (simp only: required_approvers_def)
qed

lemma uoc_tables:
  assumes "update_or_create_approval db v u st now = Inr (db1, a)"
  shows "users db1 = users db" "profiles db1 = profiles db"
    "active_designations db1 = active_designations db" "vouchers db1 = vouchers db"
  using assms
  by (auto simp: update_or_create_approval_def Let_def split: list.splits)

lemma uoc_rows:
  assumes "update_or_create_approval db v u st now = Inr (db1, a)"
  shows "approval_rows db1 v u = [a]" "approval_status a = st"
    "approved_at a = (case approval_rows db v u of [] \<Rightarrow> now | old # _ \<Rightarrow> approved_at old)"
proof -
  let ?P = "\<lambda>a. approval_voucher a = v \<and> approver a = u"
  let ?f = "\<lambda>b. if approval_voucher b = v \<and> approver b = u
                then b\<lparr>approval_status := st\<rparr> else b"
  have pf: "?P \<circ> ?f = ?P" by (rule ext) simp
  have fm: "filter ?P (map ?f (approvals db)) = map ?f (filter ?P (approvals db))"
    by (simp only: filter_map pf)
  consider (new) "approval_rows db v u = []"
    | (old) x where "approval_rows db v u = [x]"
    using assms
    by (cases "approval_rows db v u")
       (auto simp: update_or_create_approval_def split: list.splits)
  then have "approval_rows db1 v u = [a] \<and> approval_status a = st \<and>
    approved_at a = (case approval_rows db v u of [] \<Rightarrow> now | old # _ \<Rightarrow> approved_at old)"
  proof cases
    case new
    with assms have e: "db1 = db\<lparr>approvals := approvals db @
        [\<lparr>approval_voucher = v, approver = u, approval_status = st, approved_at = now\<rparr>]\<rparr>"
      "a = \<lparr>approval_voucher = v, approver = u, approval_status = st, approved_at = now\<rparr>"
      by (auto simp: update_or_create_approval_def Let_def)
    from new have "filter ?P (approvals db) = []" by (simp add: approval_rows_def)
    with e new show ?thesis by (simp add: approval_rows_def)
  next
    case old
    with assms have e: "db1 = db\<lparr>approvals := map ?f (approvals db)\<rparr>"
      "a = x\<lparr>approval_status := st\<rparr>"
      by (auto simp: update_or_create_approval_def)
    from old have fx: "filter ?P (approvals db) = [x]" by (simp add: approval_rows_def)
    then have "x \<in> set (filter ?P (approvals db))" by simp
    then have px: "?P x" by simp
    have "approval_rows db1 v u = map ?f [x]"
      using e(1) fm fx by (simp add: approval_rows_def)
    with px e old show ?thesis by simp
  qed
  then show "approval_rows db1 v u = [a]" "approval_status a = st"
    "approved_at a = (case approval_rows db v u of [] \<Rightarrow> now | old # _ \<Rightarrow> approved_at old)"
    by simp_all
qed

lemma find_id: "find (\<lambda>v. voucher_id v = pk) vs = Some v \<Longrightarrow> voucher_id v = pk"
  by (auto simp: find_Some_iff)

lemma find_user_id: "find (\<lambda>v. user_id v = pk) vs = Some v \<Longrightarrow> user_id v = pk"
  by (auto simp: find_Some_iff)

lemma find_map_status:
  "find (\<lambda>v. voucher_id v = pk) vs = Some v0 \<Longrightarrow>
   find (\<lambda>v. voucher_id v = pk)
     (map (\<lambda>v. if voucher_id v = pk then v\<lparr>status := s\<rparr> else v) vs) = Some (v0\<lparr>status := s\<rparr>)"
  by (induction vs) (auto split: if_splits)

lemma assign_keeps:
  "assign_voucher_number vs s = Inr s' \<Longrightarrow> status s' = status s \<and> voucher_id s' = voucher_id s"
  by (auto simp: assign_voucher_number_def split: if_splits option.splits)

lemma save_status_cong:
  "voucher_id s' = voucher_id s \<Longrightarrow> status s' = status s \<Longrightarrow> save_status db s' = save_status db s"
  by (simp add: save_status_def)

lemma usiaa_unfold:
  assumes "required_approvers db self \<noteq> []"
  shows "update_status_if_all_approved db self =
    save_update_fields_status db
      (self\<lparr>status := recomputed_status (required_approvers db self) (approvals_of db self)
                          (status self)\<rparr>)"
  using assms
  by (simp add: update_status_if_all_approved_def recomputed_status_def Let_def list_ex_iff)

lemma usiaa_result:
  assumes "update_status_if_all_approved db self = Inr (db2, self')"
  shows "status self' =
           recomputed_status (required_approvers db self) (approvals_of db self) (status self)"
    and "voucher_id self' = voucher_id self"
    and "required_approvers db self \<noteq> [] \<Longrightarrow>
           db2 = save_status db
             (self\<lparr>status := recomputed_status (required_approvers db self)
                                 (approvals_of db self) (status self)\<rparr>)"
    and "required_approvers db self = [] \<Longrightarrow> db2 = db"
proof -
  let ?r = "recomputed_status (required_approvers db self) (approvals_of db self) (status self)"
  have "status self' = ?r \<and> voucher_id self' = voucher_id self \<and>
        (required_approvers db self \<noteq> [] \<longrightarrow> db2 = save_status db (self\<lparr>status := ?r\<rparr>)) \<and>
        (required_approvers db self = [] \<longrightarrow> db2 = db)"
  proof (cases "required_approvers db self = []")
    case True
    with assms show ?thesis
      by (simp add: update_status_if_all_approved_def recomputed_status_def)
  next
    case False
    from assms
    have "save_update_fields_status db (self\<lparr>status := ?r\<rparr>) = Inr (db2, self')"
      by (simp only: usiaa_unfold [OF False])
    then have c: "(case assign_voucher_number (vouchers db) (self\<lparr>status := ?r\<rparr>) of
                     Inl e \<Rightarrow> Inl e
                   | Inr s \<Rightarrow>
                       if list_ex (\<lambda>v. voucher_id v = voucher_id s) (vouchers db)
                       then Inr (save_status db s, s)
                       else Inl ''DatabaseError'') = Inr (db2, self')"
      by (simp only: save_update_fields_status_def)
    obtain s where a: "assign_voucher_number (vouchers db) (self\<lparr>status := ?r\<rparr>) = Inr s"
      and d: "db2 = save_status db s" and e: "self' = s"
    proof (cases "assign_voucher_number (vouchers db) (self\<lparr>status := ?r\<rparr>)")
      case (Inl x)
      with c show ?thesis by simp
    next
      case (Inr s)
      from c have "(if list_ex (\<lambda>v. voucher_id v = voucher_id s) (vouchers db)
                    then Inr (save_status db s, s)
                    else Inl ''DatabaseError'') = (Inr (db2, self') :: string + database \<times> voucher)"
        by (simp only: Inr sum.case)
      then have "db2 = save_status db s" "self' = s" by (auto split: if_splits)
      with Inr show ?thesis by (rule that)
    qed
    from assign_keeps [OF a] have k: "status s = ?r" "voucher_id s = voucher_id self" by simp_all
    then have "save_status db s = save_status db (self\<lparr>status := ?r\<rparr>)"
      by (intro save_status_cong) simp_all
    with d e k False show ?thesis by simp
  qed
  then show "status self' = ?r" and "voucher_id self' = voucher_id self"
    and "required_approvers db self \<noteq> [] \<Longrightarrow> db2 = save_status db (self\<lparr>status := ?r\<rparr>)"
    and "required_approvers db self = [] \<Longrightarrow> db2 = db"
    by simp_all
qed

lemma usiaa_tables:
  assumes "update_status_if_all_approved db self = Inr (db2, self')"
  shows "approvals db2 = approvals db" and "users db2 = users db"
    and "profiles db2 = profiles db" and "active_designations db2 = active_designations db"
proof -
  have "approvals db2 = approvals db \<and> users db2 = users db \<and>
        profiles db2 = profiles db \<and> active_designations db2 = active_designations db"
  proof (cases "required_approvers db self = []")
    case True
    from usiaa_result(4) [OF assms True] show ?thesis by simp
  next
    case False
    from usiaa_result(3) [OF assms False] show ?thesis by (simp add: save_status_def)
  qed
  then show "approvals db2 = approvals db" and "users db2 = users db"
    and "profiles db2 = profiles db" and "active_designations db2 = active_designations db"
    by simp_all
qed

lemma usiaa_total:
  "required_approvers db self = [] \<or>
   voucher_number self \<noteq> [] \<and> (\<exists>v \<in> set (vouchers db). voucher_id v = voucher_id self) \<Longrightarrow>
   \<exists>d s. update_status_if_all_approved db self = Inr (d, s)"
  by (auto simp: update_status_if_all_approved_def save_update_fields_status_def
        assign_voucher_number_def Let_def list_ex_iff)

lemma approval_post_ok:
  assumes "approval_post db session pk sc now = (Response 200 b, db')"
  shows "\<exists>i u voucher st db1 a v'.
     session = Some i \<and> user_id u = i \<and> request_user db session = Some u \<and>
     find (\<lambda>v. voucher_id v = pk) (vouchers db) = Some voucher \<and> voucher_id voucher = pk \<and>
     sc = Some st \<and> username u \<in> set (required_approvers db voucher) \<and>
     update_or_create_approval db pk i st now = Inr (db1, a) \<and>
     update_status_if_all_approved db1 voucher = Inr (db', v') \<and>
     b = ApprovalData v' (username u) (approved_at a)"
proof -
  from assms obtain u where u: "request_user db session = Some u"
    by (auto simp: approval_post_def split: option.splits)
  then obtain i where i: "session = Some i" "user_id u = i"
    by (auto simp: request_user_def split: option.splits dest: find_user_id)
  from assms u obtain voucher where v: "find (\<lambda>v. voucher_id v = pk) (vouchers db) = Some voucher"
    by (auto simp: approval_post_def split: option.splits if_splits)
  then have vid: "voucher_id voucher = pk" by (rule find_id)
  from assms u v obtain st where st: "sc = Some st"
    by (cases sc) (auto simp: approval_post_def split: option.splits if_splits)
  from assms u v st have mem: "username u \<in> set (required_approvers db voucher)"
    by (auto simp: approval_post_def split: option.splits if_splits)
  from assms u v st mem obtain db1 a where uoc:
    "update_or_create_approval db pk i st now = Inr (db1, a)"
    using vid i
    by (auto simp: approval_post_def split: option.splits if_splits sum.splits)
  from assms u v st mem uoc vid i obtain db2 v' where
    us: "update_status_if_all_approved db1 voucher = Inr (db2, v')"
    by (auto simp: approval_post_def split: option.splits if_splits sum.splits)
  from assms u v st mem uoc us vid i have "db2 = db'" "b = ApprovalData v' (username u) (approved_at a)"
    by (auto simp: approval_post_def split: option.splits if_splits sum.splits)
  with u i v vid st mem uoc us show ?thesis by blast
qed

lemma uoc_total:
  assumes "length (approval_rows db v u) \<le> 1"
  shows "\<exists>db1 a. update_or_create_approval db v u st now = Inr (db1, a)"
proof (cases "approval_rows db v u")
  case Nil
  then show ?thesis by (simp add: update_or_create_approval_def Let_def)
next
  case (Cons x xs)
  with assms have "xs = []" by simp
  with Cons show ?thesis by (simp add: update_or_create_approval_def)
qed

lemma approval_post_total:
  assumes "request_user db session = Some u"
    and "in_group u ''Admin Staff'' \<or> is_superuser u"
    and "find (\<lambda>v. voucher_id v = pk) (vouchers db) = Some v0"
    and "voucher_number v0 \<noteq> []"
    and "username u \<in> set (required_approvers db v0)"
    and "length (approval_rows db pk (user_id u)) \<le> 1"
    and "st = ''APPROVED'' \<or> st = ''REJECTED''"
  shows "\<exists>b db'. approval_post db session pk (Some st) now = (Response 200 b, db')"
proof -
  from assms(3) have vid: "voucher_id v0 = pk" by (rule find_id)
  from uoc_total [OF assms(6)] obtain db1 a where
    uoc: "update_or_create_approval db pk (user_id u) st now = Inr (db1, a)" by blast
  from assms(3) have "v0 \<in> set (vouchers db)" by (auto simp: find_Some_iff)
  with uoc_tables(4) [OF uoc] have "\<exists>v \<in> set (vouchers db1). voucher_id v = voucher_id v0"
    by auto
  with assms(4) have "required_approvers db1 v0 = [] \<or>
      voucher_number v0 \<noteq> [] \<and> (\<exists>v \<in> set (vouchers db1). voucher_id v = voucher_id v0)"
    by simp
  from usiaa_total [OF this] obtain d s where
    us: "update_status_if_all_approved db1 v0 = Inr (d, s)" by blast
  have "approval_post db session pk (Some st) now =
          (Response 200 (ApprovalData s (username u) (approved_at a)), d)"
    using assms(1,2,3,5,7) vid uoc us by (auto simp: approval_post_def)
  then show ?thesis by blast
qed

section \<open>Decimal digits: printing and reading back\<close>

lemma digit_cases: "d < 10 \<Longrightarrow> d \<in> {0, 1, 2, 3, 4, 5, 6, 7, 8, 9 :: nat}"
  by auto

lemma of_char_digit: "d < 10 \<Longrightarrow> (of_char (digit_char d) :: nat) = 48 + d"
  by (drule digit_cases) (auto simp: digit_char_def)

lemma digit_is_decimal: "d < 10 \<Longrightarrow> is_decimal_digit (digit_char d)"
  by (simp add: is_decimal_digit_def of_char_digit)

lemma digits_value_snoc: "digits_value (s @ [c]) = 10 * digits_value s + (of_char c - 48)"
  by (simp add: digits_value_def)

lemma digits_value_str_nat: "digits_value (str_nat n) = n"
proof (induction n rule: str_nat.induct)
  case (1 n)
  show ?case
  proof (cases "n < 10")
    case True
    then have "str_nat n = [digit_char n]" by (subst str_nat.simps) simp
    with True show ?thesis by (simp add: digits_value_def of_char_digit)
  next
    case False
    then have e: "str_nat n = str_nat (n div 10) @ [digit_char (n mod 10)]"
      by (subst str_nat.simps) simp
    from False 1 have "digits_value (str_nat (n div 10)) = n div 10" by simp
    then show ?thesis by (simp add: e digits_value_snoc of_char_digit)
  qed
qed

lemma str_nat_inj: "str_nat a = str_nat b \<Longrightarrow> a = b"
proof -
  assume e: "str_nat a = str_nat b"
  have "digits_value (str_nat a) = digits_value (str_nat b)" by (simp only: e)
  then show "a = b" by (simp only: digits_value_str_nat)
qed

lemma str_nat_digits: "list_all is_decimal_digit (str_nat n)"
proof (induction n rule: str_nat.induct)
  case (1 n)
  show ?case
  proof (cases "n < 10")
    case True
    then have "str_nat n = [digit_char n]" by (subst str_nat.simps) simp
    with True show ?thesis by (simp add: digit_is_decimal)
  next
    case False
    then have e: "str_nat n = str_nat (n div 10) @ [digit_char (n mod 10)]"
      by (subst str_nat.simps) simp
    from False 1 have "list_all is_decimal_digit (str_nat (n div 10))" by simp
    then show ?thesis by (simp add: e digit_is_decimal)
  qed
qed

lemma str_nat_nonempty: "str_nat n \<noteq> []"
  by (subst str_nat.simps) simp

lemma digit_not_space: "is_decimal_digit c \<Longrightarrow> \<not> py_isspace c"
  by (auto simp: is_decimal_digit_def py_isspace_def)

lemma strip_digits:
  assumes "list_all is_decimal_digit s"
  shows "strip s = s"
proof (cases s rule: rev_cases)
  case Nil
  then show ?thesis by (simp add: strip_def)
next
  case (snoc ys y)
  with assms have y: "\<not> py_isspace y" by (simp add: digit_not_space)
  show ?thesis
  proof (cases s)
    case Nil
    then show ?thesis by (simp add: strip_def)
  next
    case (Cons x xs)
    with assms have "\<not> py_isspace x" by (simp add: digit_not_space)
    with Cons have "dropWhile py_isspace s = s" by simp
    moreover have "dropWhile py_isspace (rev s) = rev s"
      using snoc y by simp
    ultimately show ?thesis by (simp add: strip_def)
  qed
qed

lemma valid_body_digits:
  "s \<noteq> [] \<Longrightarrow> list_all is_decimal_digit s \<Longrightarrow> valid_int_body s"
proof (induction s rule: valid_int_body.induct)
  case 1
  then show ?case by simp
next
  case (2 c)
  then show ?case by simp
next
  case (3 c d r)
  from 3(4) have "is_decimal_digit d" by simp
  then have "d \<noteq> CHR ''_''" by (auto simp: is_decimal_digit_def)
  with 3 show ?case by simp
qed

lemma py_int_digits:
  assumes "s \<noteq> []" and "list_all is_decimal_digit s"
  shows "py_int s = Some (int (digits_value s))"
proof -
  have st: "strip s = s" using assms(2) by (rule strip_digits)
  from assms obtain c r where s: "s = c # r" by (cases s) auto
  with assms(2) have c: "is_decimal_digit c" by simp
  then have h: "hd s \<noteq> CHR ''-''" "hd s \<noteq> CHR ''+''"
    using s by (auto simp: is_decimal_digit_def)
  have f: "filter is_decimal_digit s = s"
    using assms(2) by (simp add: list_all_iff)
  show ?thesis
    using valid_body_digits [OF assms] h assms(1)
    by (simp add: py_int_def st f)
qed

lemma foldl_zeros:
  "foldl (\<lambda>a c. 10 * a + (of_char c - 48)) (0::nat) (replicate k CHR ''0'') = 0"
  by (induction k) simp_all

lemma digits_value_zero_pad: "digits_value (zero_pad w s) = digits_value s"
  by (simp add: digits_value_def zero_pad_def foldl_zeros)

lemma zero_is_digit: "is_decimal_digit CHR ''0''"
  by (simp add: is_decimal_digit_def)

lemma py_int_format:
  assumes "0 \<le> n"
  shows "py_int (format_04d n) = Some n"
proof -
  have f: "format_04d n = zero_pad 4 (str_nat (nat n))"
    using assms by (simp add: format_04d_def)
  have ne: "zero_pad 4 (str_nat (nat n)) \<noteq> []"
    by (simp add: zero_pad_def str_nat_nonempty)
  have al: "list_all is_decimal_digit (zero_pad 4 (str_nat (nat n)))"
    using str_nat_digits [of "nat n"] zero_is_digit
    by (auto simp: zero_pad_def list_all_iff)
  from py_int_digits [OF ne al] assms show ?thesis
    by (simp add: f digits_value_zero_pad digits_value_str_nat)
qed

lemma format_one: "format_04d 1 = ''0001''"
  by (simp add: str_nat.simps py_defs eval_nat_numeral)

section \<open>Approval control: one pass of the loop and a repeated pass\<close>

lemma keys_activation: "map fst (activation db) = map aad_designation (active_designations db)"
  by (simp add: activation_def comp_def)

lemma filter_key_empty:
  "d \<notin> aad_designation ` set xs \<Longrightarrow> filter (\<lambda>a. aad_designation a = d) xs = []"
  by (induction xs) auto

lemma filter_key_single:
  "distinct (map aad_designation xs) \<Longrightarrow> d \<in> aad_designation ` set xs \<Longrightarrow>
   \<exists>a. filter (\<lambda>a. aad_designation a = d) xs = [a] \<and> a \<in> set xs"
proof (induction xs)
  case Nil
  then show ?case by simp
next
  case (Cons x xs)
  show ?case
  proof (cases "aad_designation x = d")
    case True
    with Cons.prems have "d \<notin> aad_designation ` set xs" by auto
    then have "filter (\<lambda>a. aad_designation a = d) xs = []" by (rule filter_key_empty)
    with True show ?thesis by simp
  next
    case False
    with Cons.prems have "distinct (map aad_designation xs)" "d \<in> aad_designation ` set xs"
      by auto
    from Cons.IH [OF this] False show ?thesis by auto
  qed
qed

lemma map_of_upd:
  "map_of (map (\<lambda>a. (aad_designation a, is_active a))
      (map (\<lambda>b. if aad_designation b = d
                 then b\<lparr>is_active := flag, updated_by := actor, updated_at := now\<rparr> else b) xs)) k =
   (if k = d then (if d \<in> aad_designation ` set xs then Some flag else None)
    else map_of (map (\<lambda>a. (aad_designation a, is_active a)) xs) k)"
  by (induction xs) auto

lemma map_of_app:
  "d \<notin> aad_designation ` set xs \<Longrightarrow>
   map_of (map (\<lambda>a. (aad_designation a, is_active a))
      (xs @ [\<lparr>aad_designation = d, is_active = flag, updated_by = actor, updated_at = now\<rparr>])) k =
   (if k = d then Some flag else map_of (map (\<lambda>a. (aad_designation a, is_active a)) xs) k)"
  by (induction xs) auto

lemma uoca_step:
  assumes "one_row_per_designation db"
  shows "\<exists>db1. update_or_create_active db d flag actor now = Inr db1 \<and>
           one_row_per_designation db1 \<and>
           (\<forall>k. map_of (activation db1) k =
                  (if k = d then Some flag else map_of (activation db) k)) \<and>
           users db1 = users db \<and> designations db1 = designations db \<and>
           profiles db1 = profiles db \<and> vouchers db1 = vouchers db \<and>
           particulars db1 = particulars db \<and> approvals db1 = approvals db"
proof (cases "d \<in> aad_designation ` set (active_designations db)")
  case True
  from assms have dist: "distinct (map aad_designation (active_designations db))"
    by (simp add: one_row_per_designation_def)
  from filter_key_single [OF dist True] obtain a where
    a: "aad_rows db d = [a]" by (auto simp: aad_rows_def)
  let ?db1 = "db\<lparr>active_designations :=
                 map (\<lambda>b. if aad_designation b = d
                           then b\<lparr>is_active := flag, updated_by := actor, updated_at := now\<rparr>
                           else b) (active_designations db)\<rparr>"
  have r: "update_or_create_active db d flag actor now = Inr ?db1"
    by (simp add: update_or_create_active_def a)
  have k: "map aad_designation (active_designations ?db1) = map aad_designation (active_designations db)"
    by (simp add: comp_def if_distrib cong: if_cong)
  have "one_row_per_designation ?db1"
    unfolding one_row_per_designation_def k by (rule dist)
  moreover have "\<forall>k. map_of (activation ?db1) k =
                  (if k = d then Some flag else map_of (activation db) k)"
    using True by (simp add: activation_def map_of_upd del: map_map)
  ultimately show ?thesis using r by simp
next
  case False
  then have e: "aad_rows db d = []" by (simp add: aad_rows_def filter_key_empty)
  let ?db1 = "db\<lparr>active_designations := active_designations db @
                 [\<lparr>aad_designation = d, is_active = flag, updated_by = actor, updated_at = now\<rparr>]\<rparr>"
  have r: "update_or_create_active db d flag actor now = Inr ?db1"
    by (simp add: update_or_create_active_def e)
  have "one_row_per_designation ?db1"
    using assms False by (simp add: one_row_per_designation_def)
  moreover have "\<forall>k. map_of (activation ?db1) k =
                  (if k = d then Some flag else map_of (activation db) k)"
    using False by (simp add: activation_def map_of_app del: map_map map_append)
  ultimately show ?thesis using r by simp
qed

lemma control_loop_result:
  assumes "one_row_per_designation db"
  shows "\<exists>db'. control_loop ds L actor now db = (None, db') \<and>
           one_row_per_designation db' \<and>
           (\<forall>k. map_of (activation db') k =
                  (if k \<in> designation_id ` set ds
                   then Some (str_nat k \<in> set (map py_str L))
                   else map_of (activation db) k)) \<and>
           users db' = users db \<and> designations db' = designations db \<and>
           profiles db' = profiles db \<and> vouchers db' = vouchers db \<and>
           particulars db' = particulars db \<and> approvals db' = approvals db"
  using assms
proof (induction ds arbitrary: db)
  case Nil
  then show ?case by simp
next
  case (Cons d ds)
  let ?f = "str_nat (designation_id d) \<in> set (map py_str L)"
  from uoca_step [OF Cons.prems, of "designation_id d" ?f actor now] obtain db1 where
    s: "update_or_create_active db (designation_id d) ?f actor now = Inr db1"
      "one_row_per_designation db1"
      "\<forall>k. map_of (activation db1) k =
                  (if k = designation_id d then Some ?f else map_of (activation db) k)"
      "users db1 = users db" "designations db1 = designations db"
      "profiles db1 = profiles db" "vouchers db1 = vouchers db"
      "particulars db1 = particulars db" "approvals db1 = approvals db"
    by blast
  from Cons.IH [OF s(2)] obtain db' where
    l: "control_loop ds L actor now db1 = (None, db')"
      "one_row_per_designation db'"
      "\<forall>k. map_of (activation db') k =
                  (if k \<in> designation_id ` set ds
                   then Some (str_nat k \<in> set (map py_str L))
                   else map_of (activation db1) k)"
      "users db' = users db1" "designations db' = designations db1"
      "profiles db' = profiles db1" "vouchers db' = vouchers db1"
      "particulars db' = particulars db1" "approvals db' = approvals db1"
    by blast
  have "control_loop (d # ds) L actor now db = (None, db')"
    using s(1) l(1) by simp
  moreover have "\<forall>k. map_of (activation db') k =
                  (if k \<in> designation_id ` set (d # ds)
                   then Some (str_nat k \<in> set (map py_str L))
                   else map_of (activation db) k)"
    using l(3) s(3) by auto
  ultimately show ?case using l s by simp
qed

lemma row_of_map_of:
  "distinct (map aad_designation xs) \<Longrightarrow>
   map_of (map (\<lambda>a. (aad_designation a, is_active a)) xs) k = Some b \<Longrightarrow>
   \<exists>a. filter (\<lambda>a. aad_designation a = k) xs = [a] \<and> is_active a = b"
proof (induction xs)
  case Nil
  then show ?case by simp
next
  case (Cons x xs)
  show ?case
  proof (cases "aad_designation x = k")
    case True
    with Cons.prems have "k \<notin> aad_designation ` set xs" by auto
    then have "filter (\<lambda>a. aad_designation a = k) xs = []" by (rule filter_key_empty)
    with True Cons.prems(2) show ?thesis by simp
  next
    case False
    with Cons.prems have "distinct (map aad_designation xs)"
      "map_of (map (\<lambda>a. (aad_designation a, is_active a)) xs) k = Some b"
      by auto
    from Cons.IH [OF this] False show ?thesis by simp
  qed
qed

lemma flag_of_row:
  "distinct (map aad_designation xs) \<Longrightarrow>
   map_of (map (\<lambda>a. (aad_designation a, is_active a)) xs) k = Some b \<Longrightarrow>
   a \<in> set xs \<Longrightarrow> aad_designation a = k \<Longrightarrow> is_active a = b"
proof -
  assume d: "distinct (map aad_designation xs)"
    and m: "map_of (map (\<lambda>a. (aad_designation a, is_active a)) xs) k = Some b"
    and a: "a \<in> set xs" "aad_designation a = k"
  from row_of_map_of [OF d m] obtain a' where
    r: "filter (\<lambda>a. aad_designation a = k) xs = [a']" "is_active a' = b" by blast
  from a have "a \<in> set (filter (\<lambda>a. aad_designation a = k) xs)" by simp
  with r show ?thesis by simp
qed

lemma uoca_noop:
  assumes "one_row_per_designation db" and "map_of (activation db) d = Some flag"
  shows "\<exists>db1. update_or_create_active db d flag actor now = Inr db1 \<and>
           activation db1 = activation db \<and>
           users db1 = users db \<and> designations db1 = designations db \<and>
           profiles db1 = profiles db \<and> vouchers db1 = vouchers db \<and>
           particulars db1 = particulars db \<and> approvals db1 = approvals db"
proof -
  from assms(1) have dist: "distinct (map aad_designation (active_designations db))"
    by (simp add: one_row_per_designation_def)
  from assms(2) have m: "map_of (map (\<lambda>a. (aad_designation a, is_active a))
     (active_designations db)) d = Some flag"
    by (simp add: activation_def)
  from row_of_map_of [OF dist m] obtain a where a: "aad_rows db d = [a]"
    by (auto simp: aad_rows_def)
  let ?upd = "\<lambda>b. if aad_designation b = d
                    then b\<lparr>is_active := flag, updated_by := actor, updated_at := now\<rparr> else b"
  let ?db1 = "db\<lparr>active_designations := map ?upd (active_designations db)\<rparr>"
  have r: "update_or_create_active db d flag actor now = Inr ?db1"
    by (simp add: update_or_create_active_def a)
  have "\<And>b. b \<in> set (active_designations db) \<Longrightarrow>
      (aad_designation (?upd b), is_active (?upd b)) = (aad_designation b, is_active b)"
    using flag_of_row [OF dist m] by auto
  then have "activation ?db1 = activation db"
    by (simp add: activation_def)
  with r show ?thesis by simp
qed

lemma control_loop_noop:
  assumes "one_row_per_designation db"
    and "\<forall>d \<in> set ds. map_of (activation db) (designation_id d) =
            Some (str_nat (designation_id d) \<in> set (map py_str L))"
  shows "\<exists>db'. control_loop ds L actor now db = (None, db') \<and>
           activation db' = activation db \<and>
           users db' = users db \<and> designations db' = designations db \<and>
           profiles db' = profiles db \<and> vouchers db' = vouchers db \<and>
           particulars db' = particulars db \<and> approvals db' = approvals db"
  using assms
proof (induction ds arbitrary: db)
  case Nil
  then show ?case by simp
next
  case (Cons d ds)
  let ?f = "str_nat (designation_id d) \<in> set (map py_str L)"
  have m: "map_of (activation db) (designation_id d) = Some ?f"
    using Cons.prems(2) by simp
  from uoca_noop [OF Cons.prems(1) m, of actor now] obtain db1 where
    s: "update_or_create_active db (designation_id d) ?f actor now = Inr db1"
      "activation db1 = activation db"
      "users db1 = users db" "designations db1 = designations db"
      "profiles db1 = profiles db" "vouchers db1 = vouchers db"
      "particulars db1 = particulars db" "approvals db1 = approvals db"
    by blast
  have o1: "one_row_per_designation db1"
    using Cons.prems(1) s(2) keys_activation [of db1] keys_activation [of db]
    by (simp add: one_row_per_designation_def)
  have h1: "\<forall>d \<in> set ds. map_of (activation db1) (designation_id d) =
            Some (str_nat (designation_id d) \<in> set (map py_str L))"
    using Cons.prems(2) s(2) by simp
  from Cons.IH [OF o1 h1] obtain db' where
    l: "control_loop ds L actor now db1 = (None, db')"
      "activation db' = activation db1"
      "users db' = users db1" "designations db' = designations db1"
      "profiles db' = profiles db1" "vouchers db' = vouchers db1"
      "particulars db' = particulars db1" "approvals db' = approvals db1"
    by blast
  have "control_loop (d # ds) L actor now db = (None, db')"
    using s(1) l(1) by simp
  then show ?case using l s by simp
qed

lemma active_des_ids_activation:
  "active_des_ids db = map fst (filter snd (activation db))"
  by (simp add: active_des_ids_def activation_def filter_map comp_def)

lemma listed_ids:
  "(str_nat i \<in> set (map py_str (map (\<lambda>k. JInt (int k)) ids))) = (i \<in> set ids)"
proof -
  have "\<And>k. py_str (JInt (int k)) = str_nat k" by (simp add: str_int_def)
  then have "set (map py_str (map (\<lambda>k. JInt (int k)) ids)) = str_nat ` set ids"
    by (simp add: image_image)
  then show ?thesis using str_nat_inj by auto
qed

lemma control_post_superuser:
  assumes "request_user db session = Some actor" and "is_superuser actor"
    and "control_loop (designations db) L (user_id actor) now db = (None, db')"
  shows "control_post db session (IdList L) now =
     (Response 200
        (ControlData (''Approval workflow updated. '' @ str_nat (length L) @
                      '' active designations.'') (length L)), db')"
  using assms by (simp add: control_post_def)

lemma request_user_cong: "users db' = users db \<Longrightarrow> request_user db' s = request_user db s"
  by (simp add: request_user_def split: option.splits)

section \<open>Voucher numbering: the last voucher and the invariant\<close>

lemma last_voucher_None: "last_voucher vs = None \<longleftrightarrow> vs = []"
  by (induction vs) (auto split: option.splits)

lemma last_voucher_max:
  "last_voucher vs = Some lv \<Longrightarrow>
   lv \<in> set vs \<and> (\<forall>w \<in> set vs. voucher_id w \<le> voucher_id lv)"
proof (induction vs arbitrary: lv)
  case Nil
  then show ?case by simp
next
  case (Cons v vs)
  show ?case
  proof (cases "last_voucher vs")
    case None
    then have "vs = []" by (simp add: last_voucher_None)
    with Cons.prems None show ?thesis by simp
  next
    case (Some w)
    from Cons.IH [OF Some] have w: "w \<in> set vs" "\<forall>x \<in> set vs. voucher_id x \<le> voucher_id w"
      by simp_all
    show ?thesis
    proof (cases "voucher_id w < voucher_id v")
      case True
      with Some Cons.prems have "lv = v" by simp
      with True w show ?thesis by fastforce
    next
      case False
      with Some Cons.prems have "lv = w" by simp
      with False w show ?thesis by auto
    qed
  qed
qed

lemma fold_max_ge: "(a::nat) \<le> fold max xs a"
proof (induction xs arbitrary: a)
  case Nil
  then show ?case by simp
next
  case (Cons x xs)
  have "a \<le> max x a" by simp
  also have "\<dots> \<le> fold max xs (max x a)" by (rule Cons.IH)
  finally show ?case by simp
qed

lemma fold_max_mem: "x \<in> set xs \<Longrightarrow> (x::nat) \<le> fold max xs a"
proof (induction xs arbitrary: a)
  case Nil
  then show ?case by simp
next
  case (Cons y ys)
  show ?case
  proof (cases "x = y")
    case True
    have "x \<le> max y a" using True by simp
    also have "\<dots> \<le> fold max ys (max y a)" by (rule fold_max_ge)
    finally show ?thesis by simp
  next
    case False
    with Cons.prems have "x \<in> set ys" by simp
    from Cons.IH [OF this] show ?thesis by simp
  qed
qed

lemma next_voucher_id_fresh: "w \<in> set vs \<Longrightarrow> voucher_id w < next_voucher_id vs"
proof -
  assume "w \<in> set vs"
  then have "voucher_id w \<in> set (map voucher_id vs)" by simp
  from fold_max_mem [OF this, of 0] show ?thesis
    by (simp add: next_voucher_id_def)
qed

lemma numeric_suffix_format:
  "0 \<le> m \<Longrightarrow> voucher_number v = ''VCH'' @ format_04d m \<Longrightarrow> numeric_suffix v = m"
  by (simp add: numeric_suffix_def py_int_format)

lemma save_with_number:
  assumes inv: "numbered_in_order (vouchers db)"
    and a: "assign_voucher_number (vouchers db) self =
              Inr (self\<lparr>voucher_number := ''VCH'' @ format_04d m\<rparr>)"
    and m: "0 < m"
    and gt: "\<forall>w \<in> set (vouchers db). numeric_suffix w < m"
  shows "\<exists>db' v. voucher_save db self = Inr (db', v) \<and> vouchers db' = vouchers db @ [v] \<and>
           voucher_number v = ''VCH'' @ format_04d m \<and>
           (\<forall>w \<in> set (vouchers db). numeric_suffix w < numeric_suffix v) \<and>
           numbered_in_order (vouchers db')"
proof -
  let ?s = "self\<lparr>voucher_number := ''VCH'' @ format_04d m\<rparr>"
  let ?v = "?s\<lparr>voucher_id := next_voucher_id (vouchers db)\<rparr>"
  let ?db' = "db\<lparr>vouchers := vouchers db @ [?v]\<rparr>"
  have num: "voucher_number ?v = ''VCH'' @ format_04d m" by simp
  from m have m0: "0 \<le> m" by simp
  have sv: "numeric_suffix ?v = m"
    using m0 num by (rule numeric_suffix_format)
  have fresh: "voucher_number ?s \<notin> set (map voucher_number (vouchers db))"
  proof
    assume "voucher_number ?s \<in> set (map voucher_number (vouchers db))"
    then obtain w where w: "w \<in> set (vouchers db)" "voucher_number w = ''VCH'' @ format_04d m"
      by auto
    from numeric_suffix_format [OF m0 w(2)] gt w(1) show False by auto
  qed
  have r: "voucher_save db self = Inr (?db', ?v)"
    using a fresh by (simp add: voucher_save_def Let_def)
  have vid: "voucher_id ?v = next_voucher_id (vouchers db)" by simp
  have sn: "save_numbered ?v"
    unfolding save_numbered_def sv using m num by simp
  have old: "list_all save_numbered (vouchers db)" "distinct (map voucher_id (vouchers db))"
    "\<forall>v \<in> set (vouchers db). \<forall>w \<in> set (vouchers db).
         voucher_id v < voucher_id w \<longrightarrow> numeric_suffix v < numeric_suffix w"
    using inv by (simp_all add: numbered_in_order_def)
  have idf: "\<forall>w \<in> set (vouchers db). voucher_id w < voucher_id ?v"
    unfolding vid using next_voucher_id_fresh by blast
  have d: "distinct (map voucher_id (vouchers db @ [?v]))"
    using old(2) idf by (auto simp del: voucher.simps)
  have ord: "\<forall>x \<in> set (vouchers db @ [?v]). \<forall>y \<in> set (vouchers db @ [?v]).
         voucher_id x < voucher_id y \<longrightarrow> numeric_suffix x < numeric_suffix y"
  proof (intro ballI impI)
    fix x y
    assume x: "x \<in> set (vouchers db @ [?v])" and y: "y \<in> set (vouchers db @ [?v])"
      and lt: "voucher_id x < voucher_id y"
    show "numeric_suffix x < numeric_suffix y"
    proof (cases "y = ?v")
      case True
      with lt have "x \<noteq> ?v" by auto
      with x have "x \<in> set (vouchers db)" by simp
      with gt have "numeric_suffix x < m" by simp
      with True sv show ?thesis by simp
    next
      case False
      with y have y': "y \<in> set (vouchers db)" by simp
      show ?thesis
      proof (cases "x = ?v")
        case True
        with idf y' lt show ?thesis by (simp only: vid) (metis less_asym)
      next
        case False
        with x have "x \<in> set (vouchers db)" by simp
        with old(3) y' lt show ?thesis by blast
      qed
    qed
  qed
  have inv': "numbered_in_order (vouchers ?db')"
    unfolding numbered_in_order_def
    using old(1) sn d ord by (simp del: voucher.simps)
  have gt': "\<forall>w \<in> set (vouchers db). numeric_suffix w < numeric_suffix ?v"
    using gt sv by simp
  show ?thesis
    apply (rule exI [of _ ?db'])
    apply (rule exI [of _ ?v])
    apply (intro conjI)
        apply (rule r)
       apply simp
      apply (rule num)
     apply (rule gt')
    apply (rule inv')
    done
qed

section \<open>Voucher submission: the loop, the serializer and the writes\<close>

lemma rebuild_stop:
  "ParticularDescription k \<notin> fst ` set (POST req) \<Longrightarrow>
   rebuild_particulars fw (POST req) (FILES req) k acc = Inr acc"
  by (subst rebuild_particulars.simps) simp

lemma rebuild_skip:
  "ParticularDescription k \<in> fst ` set (POST req) \<Longrightarrow> row_blank req k \<Longrightarrow>
   rebuild_particulars fw (POST req) (FILES req) k acc =
     rebuild_particulars fw (POST req) (FILES req) (k + 1) acc"
  by (subst rebuild_particulars.simps) (auto simp: row_blank_def Let_def)

lemma verdict_None:
  "amount_verdict fw req k = None \<Longrightarrow>
   \<exists>d. Decimal fw (strip (get_or_empty (POST req) (ParticularAmount k))) = Some d \<and>
       le_zero d = Some False"
  by (auto simp: amount_verdict_def split: option.splits bool.splits)

lemma rebuild_keep:
  assumes "ParticularDescription k \<in> fst ` set (POST req)" and "\<not> row_blank req k"
    and "Decimal fw (strip (get_or_empty (POST req) (ParticularAmount k))) = Some d"
    and "le_zero d = Some False"
  shows "rebuild_particulars fw (POST req) (FILES req) k acc =
     rebuild_particulars fw (POST req) (FILES req) (k + 1)
       (acc @ [\<lparr>pd_description = strip (get_or_empty (POST req) (ParticularDescription k)),
                 pd_amount = d,
                 pd_attachment = query_get (FILES req) (ParticularAttachment k)\<rparr>])"
  using assms by (subst rebuild_particulars.simps) (simp add: row_blank_def Let_def)

lemma rebuild_reject:
  assumes "ParticularDescription k \<in> fst ` set (POST req)" and "\<not> row_blank req k"
    and "amount_verdict fw req k = Some msg"
  shows "rebuild_particulars fw (POST req) (FILES req) k acc =
           Inl (''particulars'', msg @ str_nat (k + 1))"
proof (cases "Decimal fw (strip (get_or_empty (POST req) (ParticularAmount k)))")
  case None
  with assms(3) have "msg = ''Invalid amount for item ''" by (simp add: amount_verdict_def)
  with None assms(1,2) show ?thesis
    by (subst rebuild_particulars.simps) (simp add: row_blank_def Let_def)
next
  case (Some d)
  show ?thesis
  proof (cases "le_zero d")
    case None
    with Some assms(3) have "msg = ''Invalid amount for item ''"
      by (simp add: amount_verdict_def)
    with None Some assms(1,2) show ?thesis
      by (subst rebuild_particulars.simps) (simp add: row_blank_def Let_def)
  next
    case (Some b)
    note b = this
    show ?thesis
    proof (cases b)
      case True
      with b \<open>Decimal fw (strip (get_or_empty (POST req) (ParticularAmount k))) = Some d\<close> assms(3)
      have "msg = ''Amount must be > 0 for item ''" by (simp add: amount_verdict_def)
      with True b \<open>Decimal fw (strip (get_or_empty (POST req) (ParticularAmount k))) = Some d\<close>
        assms(1,2)
      show ?thesis
        by (subst rebuild_particulars.simps) (simp add: row_blank_def Let_def)
    next
      case False
      with b \<open>Decimal fw (strip (get_or_empty (POST req) (ParticularAmount k))) = Some d\<close> assms(3)
      show ?thesis by (simp add: amount_verdict_def)
    qed
  qed
qed

lemma rebuild_offending:
  assumes "row_submitted req i" and "\<not> row_blank req i"
    and "amount_verdict fw req i = Some msg"
  shows "k \<le> i \<Longrightarrow> \<forall>j. k \<le> j \<and> j < i \<longrightarrow> row_blank req j \<or> amount_verdict fw req j = None \<Longrightarrow>
         rebuild_particulars fw (POST req) (FILES req) k acc =
           Inl (''particulars'', msg @ str_nat (i + 1))"
proof (induction "i - k" arbitrary: k acc)
  case 0
  then have k: "k = i" by simp
  have key: "ParticularDescription i \<in> fst ` set (POST req)"
    using assms(1) by (simp add: row_submitted_def)
  show ?case
    unfolding k using key assms(2,3) by (rule rebuild_reject)
next
  case (Suc n)
  then have lt: "k < i" by simp
  have key: "ParticularDescription k \<in> fst ` set (POST req)"
    using assms(1) lt by (simp add: row_submitted_def)
  from Suc.prems(2) lt have ok: "row_blank req k \<or> amount_verdict fw req k = None" by simp
  have n: "n = i - (k + 1)" using Suc.hyps(2) by simp
  have le: "k + 1 \<le> i" using lt by simp
  have rest: "\<forall>j. k + 1 \<le> j \<and> j < i \<longrightarrow> row_blank req j \<or> amount_verdict fw req j = None"
    using Suc.prems(2) by simp
  note ih = Suc.hyps(1) [OF n le rest]
  show ?case
  proof (cases "row_blank req k")
    case True
    from rebuild_skip [OF key True] ih show ?thesis by simp
  next
    case False
    with ok have "amount_verdict fw req k = None" by simp
    from verdict_None [OF this] obtain d where
      d: "Decimal fw (strip (get_or_empty (POST req) (ParticularAmount k))) = Some d"
         "le_zero d = Some False" by blast
    from rebuild_keep [OF key False d] ih show ?thesis by simp
  qed
qed

lemma validate_Valid:
  assumes "validate d = Valid d'"
  shows "vd_payment_type d' = vd_payment_type d"
    and "vd_particulars d' = vd_particulars d"
    and "vd_particulars d \<noteq> []"
    and "list_all (\<lambda>p. pd_description p \<noteq> []) (vd_particulars d)"
    and "vd_payment_type d = ''CHEQUE'' \<Longrightarrow>
           \<exists>c. vd_cheque_number d' = Some c \<and> c \<noteq> [] \<and> isdigit c"
    and "vd_payment_type d \<noteq> ''CHEQUE'' \<Longrightarrow> vd_cheque_number d' = None"
  using assms
  by (auto simp: validate_def Let_def list_ex_iff list_all_iff
           split: if_splits option.splits)

lemma both_Valid: "both a b = Valid (x, y) \<Longrightarrow> a = Valid x \<and> b = Valid y"
  by (cases a; cases b) auto

lemma validate_amount_Valid:
  "validate_amount fw v = Valid d \<Longrightarrow> le_zero d = Some False"
  by (auto simp: validate_amount_def split: option.splits bool.splits)

lemma particular_hooks_Valid:
  assumes "particular_hooks fw p = Valid q"
  shows "le_zero (pd_amount q) = Some False" and "pd_description q = pd_description p"
proof -
  from assms obtain a f where
    b: "both (validate_amount fw (pd_amount p))
             (particular_validate_attachment (pd_attachment p)) = Valid (a, f)"
    and q: "q = p\<lparr>pd_amount := a, pd_attachment := f\<rparr>"
    by (auto simp: particular_hooks_def split: checked.splits)
  from both_Valid [OF b] have "validate_amount fw (pd_amount p) = Valid a" by simp
  then have "le_zero a = Some False" by (rule validate_amount_Valid)
  with q show "le_zero (pd_amount q) = Some False" and "pd_description q = pd_description p"
    by simp_all
qed

lemma all_particular_hooks_Valid:
  "all_particular_hooks fw ps = Valid qs \<Longrightarrow>
   list_all (\<lambda>q. le_zero (pd_amount q) = Some False) qs \<and>
   map pd_description qs = map pd_description ps"
proof (induction ps arbitrary: qs)
  case Nil
  then show ?case by simp
next
  case (Cons p ps)
  from Cons.prems obtain q qs' where
    b: "both (particular_hooks fw p) (all_particular_hooks fw ps) = Valid (q, qs')"
    and qs: "qs = q # qs'"
    by (auto split: checked.splits)
  from both_Valid [OF b] have h: "particular_hooks fw p = Valid q"
    "all_particular_hooks fw ps = Valid qs'" by simp_all
  from particular_hooks_Valid [OF h(1)] Cons.IH [OF h(2)] qs show ?case by simp
qed

lemma is_valid_Valid:
  assumes "is_valid fw sd = Valid vd"
  shows "list_all (\<lambda>q. pd_description q \<noteq> [] \<and> le_zero (pd_amount q) = Some False)
           (vd_particulars vd)"
    and "vd_payment_type vd = ''CHEQUE'' \<Longrightarrow>
           \<exists>c. vd_cheque_number vd = Some c \<and> c \<noteq> [] \<and> isdigit c"
    and "vd_payment_type vd \<noteq> ''CHEQUE'' \<Longrightarrow> vd_cheque_number vd = None"
proof -
  from assms obtain d0 where t: "to_internal_value fw sd = Inr d0"
    by (auto simp: is_valid_def split: sum.splits)
  with assms obtain att ps where
    b: "both (validate_attachment (vd_attachment d0))
             (all_particular_hooks fw (vd_particulars d0)) = Valid (att, ps)"
    and v: "validate (d0\<lparr>vd_attachment := att, vd_particulars := ps\<rparr>) = Valid vd"
    by (auto simp: is_valid_def split: checked.splits)
  let ?d = "d0\<lparr>vd_attachment := att, vd_particulars := ps\<rparr>"
  from both_Valid [OF b] have "all_particular_hooks fw (vd_particulars d0) = Valid ps" by simp
  from all_particular_hooks_Valid [OF this]
  have am: "list_all (\<lambda>q. le_zero (pd_amount q) = Some False) ps" by simp
  from validate_Valid(2,4) [OF v] have "vd_particulars vd = ps"
    "list_all (\<lambda>p. pd_description p \<noteq> []) ps" by simp_all
  with am show "list_all (\<lambda>q. pd_description q \<noteq> [] \<and> le_zero (pd_amount q) = Some False)
           (vd_particulars vd)"
    by (simp add: list_all_iff)
  from validate_Valid(1) [OF v] have pt: "vd_payment_type ?d = vd_payment_type vd" by simp
  show "\<exists>c. vd_cheque_number vd = Some c \<and> c \<noteq> [] \<and> isdigit c"
    if "vd_payment_type vd = ''CHEQUE''"
    using validate_Valid(5) [OF v] that pt by simp
  show "vd_cheque_number vd = None" if "vd_payment_type vd \<noteq> ''CHEQUE''"
    using validate_Valid(6) [OF v] that pt by simp
qed

lemma assign_fields:
  "assign_voucher_number vs s = Inr s' \<Longrightarrow>
   payment_type s' = payment_type s \<and> cheque_number s' = cheque_number s"
  by (auto simp: assign_voucher_number_def split: if_splits option.splits)

lemma voucher_save_fields:
  assumes "voucher_save db s = Inr (db1, v)"
  shows "payment_type v = payment_type s" and "cheque_number v = cheque_number s"
    and "vouchers db1 = vouchers db @ [v]" and "particulars db1 = particulars db"
    and "\<forall>w \<in> set (vouchers db). voucher_id w \<noteq> voucher_id v"
proof -
  from assms obtain s' where a: "assign_voucher_number (vouchers db) s = Inr s'"
    and v: "v = s'\<lparr>voucher_id := next_voucher_id (vouchers db)\<rparr>"
    and d: "db1 = db\<lparr>vouchers := vouchers db @ [v]\<rparr>"
    by (auto simp: voucher_save_def Let_def split: sum.splits if_splits)
  from assign_fields [OF a] v show "payment_type v = payment_type s"
    and "cheque_number v = cheque_number s" by simp_all
  from d show "vouchers db1 = vouchers db @ [v]" and "particulars db1 = particulars db"
    by simp_all
  from v have "voucher_id v = next_voucher_id (vouchers db)" by simp
  with next_voucher_id_fresh show "\<forall>w \<in> set (vouchers db). voucher_id w \<noteq> voucher_id v"
    by fastforce
qed

lemma create_result:
  assumes "create db vd u now = Inr (db', v)"
  shows "payment_type v = vd_payment_type vd" and "cheque_number v = vd_cheque_number vd"
    and "vouchers db' = vouchers db @ [v]"
    and "particulars db' = particulars db @
           map (\<lambda>p. \<lparr>particular_voucher = voucher_id v, description = pd_description p,
                      amount = pd_amount p, particular_attachment = pd_attachment p\<rparr>)
               (vd_particulars vd)"
    and "\<forall>w \<in> set (vouchers db). voucher_id w \<noteq> voucher_id v"
proof -
  let ?s = "\<lparr>voucher_id = 0, voucher_number = [],
              voucher_date = vd_voucher_date vd,
              payment_type = vd_payment_type vd,
              name_title = vd_name_title vd,
              pay_to = vd_pay_to vd,
              attachment = Some (vd_attachment vd),
              cheque_number = vd_cheque_number vd,
              created_by = u, created_at = now, status = ''PENDING''\<rparr>"
  from assms obtain db1 where s: "voucher_save db ?s = Inr (db1, v)"
    and d: "db' = db1\<lparr>particulars := particulars db1 @
           map (\<lambda>p. \<lparr>particular_voucher = voucher_id v, description = pd_description p,
                      amount = pd_amount p, particular_attachment = pd_attachment p\<rparr>)
               (vd_particulars vd)\<rparr>"
    by (auto simp: create_def split: sum.splits)
  from voucher_save_fields [OF s] d
  show "payment_type v = vd_payment_type vd" and "cheque_number v = vd_cheque_number vd"
    and "vouchers db' = vouchers db @ [v]"
    and "particulars db' = particulars db @
           map (\<lambda>p. \<lparr>particular_voucher = voucher_id v, description = pd_description p,
                      amount = pd_amount p, particular_attachment = pd_attachment p\<rparr>)
               (vd_particulars vd)"
    and "\<forall>w \<in> set (vouchers db). voucher_id w \<noteq> voucher_id v"
    by simp_all
qed

lemma post_created:
  assumes "voucher_create_post fw db req now = (Response 201 (VoucherData v ps), db')"
  shows "\<exists>sd vd u. is_valid fw sd = Valid vd \<and> create db vd u now = Inr (db', v) \<and>
           ps = filter (\<lambda>p. particular_voucher p = voucher_id v) (particulars db')"
  using assms
  by (auto simp: voucher_create_post_def Let_def
           split: option.splits if_splits sum.splits checked.splits prod.splits)

lemma validate_rejects_cheque:
  assumes "vd_payment_type d = ''CHEQUE''" and "vd_cheque_number d = Some c"
    and "strip c = [] \<or> \<not> isdigit (strip c)"
  shows "\<exists>e. validate d = Invalid e"
  using assms by (auto simp: validate_def Let_def)

lemma accepted_cheque_number:
  assumes "voucher_create_post fw db req now = (Response 201 (VoucherData v ps), db')"
  shows "v \<in> set (vouchers db')"
    and "payment_type v = ''CHEQUE'' \<Longrightarrow> \<exists>c. cheque_number v = Some c \<and> c \<noteq> [] \<and> isdigit c"
    and "payment_type v \<noteq> ''CHEQUE'' \<Longrightarrow> cheque_number v = None"
proof -
  from post_created [OF assms] obtain sd vd u where
    iv: "is_valid fw sd = Valid vd" and cr: "create db vd u now = Inr (db', v)"
    by blast
  from create_result(1,2,3) [OF cr] have f: "payment_type v = vd_payment_type vd"
    "cheque_number v = vd_cheque_number vd" "v \<in> set (vouchers db')"
    by simp_all
  from f(3) show "v \<in> set (vouchers db')" .
  show "\<exists>c. cheque_number v = Some c \<and> c \<noteq> [] \<and> isdigit c" if "payment_type v = ''CHEQUE''"
    using is_valid_Valid(2) [OF iv] f that by simp
  show "cheque_number v = None" if "payment_type v \<noteq> ''CHEQUE''"
    using is_valid_Valid(3) [OF iv] f that by simp
qed

section \<open>Claims\<close>

subsection \<open>Approver resolution\<close>



text \<open>
  Claim C10. The model property \<open>Voucher.required_approvers\<close> and the serializer method
  \<open>get_required_approvers\<close> yield the same set of usernames, for every voucher and every
  state of the tables.
\<close>

theorem required_approvers_implementations_agree:
  "set (required_approvers db v) = set (get_required_approvers db v)"
  by (rule set_eqI) (simp only: ra_mem gra_mem)

subsection \<open>Approval consensus\<close>

text \<open>
  Claim C1. The recomputation routine, when it returns, has computed the status of the
  state machine from the approvals stored for this voucher, the rows of the approval
  table whose voucher is this one: unchanged when nobody is required, REJECTED when one
  of them is a rejection, APPROVED exactly when the number of APPROVED ones equals the
  number of required approvers, PENDING otherwise. The store it returns is the old one
  when nobody is required, and otherwise the old one with that status written to the
  row of this voucher and to no other. The routine returns when nobody is required, and
  for every stored voucher that has a number. After a decision is recorded, the voucher
  table is the old one with the status of the voucher replaced by the status computed
  from the approvals of this voucher and the required approvers in the resulting state;
  a recorded REJECTED decision leaves the voucher REJECTED whatever else is stored. A
  REJECTED decision by a required approver is recorded whenever the voucher has a number
  and the pair has at most one approval row, as the unique constraint guarantees.
\<close>

theorem record_decision_status_recomputed:
  "(update_status_if_all_approved db0 self = Inr (db2, self') \<longrightarrow>
      status self' =
        recomputed_status (required_approvers db0 self)
          (filter (\<lambda>a. approval_voucher a = voucher_id self) (approvals db0)) (status self) \<and>
      db2 = (if required_approvers db0 self = [] then db0
             else db0\<lparr>vouchers :=
                    map (\<lambda>v. if voucher_id v = voucher_id self
                              then v\<lparr>status := status self'\<rparr> else v) (vouchers db0)\<rparr>))
   \<and> (required_approvers db0 self = [] \<or>
       voucher_number self \<noteq> [] \<and> (\<exists>v \<in> set (vouchers db0). voucher_id v = voucher_id self) \<longrightarrow>
        (\<exists>d s. update_status_if_all_approved db0 self = Inr (d, s)))
   \<and> (approval_post db session pk status_choice now = (Response 200 b, db') \<longrightarrow>
       (\<exists>v0 s. find (\<lambda>v. voucher_id v = pk) (vouchers db) = Some v0 \<and>
          s = recomputed_status (required_approvers db' v0)
                (filter (\<lambda>a. approval_voucher a = pk) (approvals db')) (status v0) \<and>
          vouchers db' =
            map (\<lambda>v. if voucher_id v = pk then v\<lparr>status := s\<rparr> else v) (vouchers db) \<and>
          find (\<lambda>v. voucher_id v = pk) (vouchers db') = Some (v0\<lparr>status := s\<rparr>) \<and>
          (status_choice = Some ''REJECTED'' \<longrightarrow> s = ''REJECTED'')))
   \<and> (request_user db session = Some u \<and> (in_group u ''Admin Staff'' \<or> is_superuser u) \<and>
       find (\<lambda>v. voucher_id v = pk) (vouchers db) = Some v1 \<and> voucher_number v1 \<noteq> [] \<and>
       username u \<in> set (required_approvers db v1) \<and>
       length (approval_rows db pk (user_id u)) \<le> 1 \<longrightarrow>
       (\<exists>r d. approval_post db session pk (Some ''REJECTED'') now = (Response 200 r, d)))"
proof (intro conjI impI)
  assume "request_user db session = Some u \<and> (in_group u ''Admin Staff'' \<or> is_superuser u) \<and>
       find (\<lambda>v. voucher_id v = pk) (vouchers db) = Some v1 \<and> voucher_number v1 \<noteq> [] \<and>
       username u \<in> set (required_approvers db v1) \<and>
       length (approval_rows db pk (user_id u)) \<le> 1"
  then show "\<exists>r d. approval_post db session pk (Some ''REJECTED'') now = (Response 200 r, d)"
    by (intro approval_post_total [of db session u pk v1]) simp_all
next
  assume r: "update_status_if_all_approved db0 self = Inr (db2, self')"
  from usiaa_result(1) [OF r]
  show st: "status self' =
        recomputed_status (required_approvers db0 self)
          (filter (\<lambda>a. approval_voucher a = voucher_id self) (approvals db0)) (status self)"
    by (simp only: approvals_of_def)
  show "db2 = (if required_approvers db0 self = [] then db0
             else db0\<lparr>vouchers :=
                    map (\<lambda>v. if voucher_id v = voucher_id self
                              then v\<lparr>status := status self'\<rparr> else v) (vouchers db0)\<rparr>)"
  proof (cases "required_approvers db0 self = []")
    case True
    from usiaa_result(4) [OF r True] True show ?thesis by simp
  next
    case False
    from usiaa_result(3) [OF r False] usiaa_result(1) [OF r] False
    show ?thesis by (simp add: save_status_def)
  qed
next
  assume "required_approvers db0 self = [] \<or>
       voucher_number self \<noteq> [] \<and> (\<exists>v \<in> set (vouchers db0). voucher_id v = voucher_id self)"
  then show "\<exists>d s. update_status_if_all_approved db0 self = Inr (d, s)"
    by (rule usiaa_total)
next
  assume ok: "approval_post db session pk status_choice now = (Response 200 b, db')"
  from approval_post_ok[OF ok] obtain i u voucher st db1 a w where h:
    "session = Some i" "user_id u = i" "request_user db session = Some u"
    "find (\<lambda>v. voucher_id v = pk) (vouchers db) = Some voucher" "voucher_id voucher = pk"
    "status_choice = Some st" "username u \<in> set (required_approvers db voucher)"
    "update_or_create_approval db pk i st now = Inr (db1, a)"
    "update_status_if_all_approved db1 voucher = Inr (db', w)"
    by blast
  let ?s1 = "recomputed_status (required_approvers db1 voucher) (approvals_of db1 voucher)
               (status voucher)"
  let ?s = "recomputed_status (required_approvers db' voucher)
              (filter (\<lambda>a. approval_voucher a = pk) (approvals db')) (status voucher)"
  have r1: "required_approvers db1 voucher = required_approvers db voucher"
    using uoc_tables[OF h(8)] by (intro ra_cong) simp_all
  with h(7) have ne: "required_approvers db1 voucher \<noteq> []" by auto
  from usiaa_result(3) [OF h(9) ne]
  have db': "db' = save_status db1 (voucher\<lparr>status := ?s1\<rparr>)" .
  have r': "required_approvers db' voucher = required_approvers db1 voucher"
    by (intro ra_cong) (simp_all add: db' save_status_def)
  have a': "filter (\<lambda>a. approval_voucher a = pk) (approvals db') = approvals_of db1 voucher"
    using h(5) by (simp add: approvals_of_def db' save_status_def)
  have s: "?s = ?s1"
    by (simp only: r' a')
  have "vouchers db' =
      map (\<lambda>v. if voucher_id v = pk then v\<lparr>status := ?s1\<rparr> else v) (vouchers db)"
    using h(5) uoc_tables(4)[OF h(8)] by (simp add: db' save_status_def)
  then have vs: "vouchers db' =
      map (\<lambda>v. if voucher_id v = pk then v\<lparr>status := ?s\<rparr> else v) (vouchers db)"
    by (simp only: s)
  have f': "find (\<lambda>v. voucher_id v = pk) (vouchers db') = Some (voucher\<lparr>status := ?s\<rparr>)"
    using find_map_status[OF h(4), of ?s] by (simp only: vs)
  have rej: "?s = ''REJECTED''" if "status_choice = Some ''REJECTED''"
  proof -
    from that h(6) have "st = ''REJECTED''" by simp
    with uoc_rows(1,2)[OF h(8)]
    have "a \<in> set (approval_rows db1 pk i)" "approval_status a = ''REJECTED''"
      by simp_all
    then have "a \<in> set (approvals_of db1 voucher)" "approval_status a = ''REJECTED''"
      using h(5) by (auto simp: approval_rows_def approvals_of_def)
    then have "\<exists>a \<in> set (approvals_of db1 voucher). approval_status a = ''REJECTED''" by blast
    with ne have "?s1 = ''REJECTED''" by (simp add: recomputed_status_def)
    with s show ?thesis by simp
  qed
  show "\<exists>v0 s. find (\<lambda>v. voucher_id v = pk) (vouchers db) = Some v0 \<and>
          s = recomputed_status (required_approvers db' v0)
                (filter (\<lambda>a. approval_voucher a = pk) (approvals db')) (status v0) \<and>
          vouchers db' =
            map (\<lambda>v. if voucher_id v = pk then v\<lparr>status := s\<rparr> else v) (vouchers db) \<and>
          find (\<lambda>v. voucher_id v = pk) (vouchers db') = Some (v0\<lparr>status := s\<rparr>) \<and>
          (status_choice = Some ''REJECTED'' \<longrightarrow> s = ''REJECTED'')"
    apply (rule exI [of _ voucher])
    apply (rule exI [of _ ?s])
    using h(4) vs f' rej apply blast
    done
qed

theorem record_decision_status_recomputed_witness:
  "approval_post two_voucher_db (Some 2) 1 (Some ''APPROVED'') 9 =
     (Response 200 (ApprovalData (demo_voucher\<lparr>status := ''APPROVED''\<rparr>) ''u2'' 9),
      two_voucher_db
        \<lparr>vouchers := [demo_voucher\<lparr>status := ''APPROVED''\<rparr>, rejected_voucher],
         approvals := approvals two_voucher_db @
           [\<lparr>approval_voucher = 1, approver = 2, approval_status = ''APPROVED'',
             approved_at = 9\<rparr>]\<rparr>)
   \<and> find (\<lambda>v. voucher_id v = 1)
        (vouchers (snd (approval_post two_voucher_db (Some 2) 1 (Some ''APPROVED'') 9))) =
       Some (demo_voucher\<lparr>status := ''APPROVED''\<rparr>)
   \<and> (\<exists>r d. approval_post two_voucher_db (Some 1) 1 (Some ''REJECTED'') 9 = (Response 200 r, d) \<and>
         find (\<lambda>v. voucher_id v = 1) (vouchers d) = Some (demo_voucher\<lparr>status := ''REJECTED''\<rparr>))"
proof -
  let ?db' = "two_voucher_db
        \<lparr>vouchers := [demo_voucher\<lparr>status := ''APPROVED''\<rparr>, rejected_voucher],
         approvals := approvals two_voucher_db @
           [\<lparr>approval_voucher = 1, approver = 2, approval_status = ''APPROVED'',
             approved_at = 9\<rparr>]\<rparr>"
  have e: "approval_post two_voucher_db (Some 2) 1 (Some ''APPROVED'') 9 =
     (Response 200 (ApprovalData (demo_voucher\<lparr>status := ''APPROVED''\<rparr>) ''u2'' 9), ?db')"
    by (simp add: approval_defs two_voucher_defs Let_def)
  from record_decision_status_recomputed
         [where db = two_voucher_db and session = "Some 2" and pk = 1
            and status_choice = "Some ''APPROVED''" and now = 9,
          THEN conjunct2, THEN conjunct2, THEN conjunct1, THEN mp, OF e]
  obtain v0 s where c:
    "find (\<lambda>v. voucher_id v = 1) (vouchers two_voucher_db) = Some v0"
    "s = recomputed_status (required_approvers ?db' v0)
           (filter (\<lambda>a. approval_voucher a = 1) (approvals ?db')) (status v0)"
    "find (\<lambda>v. voucher_id v = 1) (vouchers ?db') = Some (v0\<lparr>status := s\<rparr>)"
    by blast
  from c(1) have v0: "v0 = demo_voucher\<lparr>status := ''PENDING''\<rparr>"
    by (simp add: two_voucher_db_def rejected_voucher_def demo_db_def demo_voucher_def)
  have "required_approvers ?db' v0 = [''u1'', ''u2'']"
    by (simp add: required_approvers_def active_des_ids_def designation_in_def two_voucher_defs)
  with c(2) have s: "s = ''APPROVED''"
    by (simp add: recomputed_status_def two_voucher_defs)
  from c(3) have "find (\<lambda>v. voucher_id v = 1) (vouchers ?db') =
       Some (demo_voucher\<lparr>status := ''APPROVED''\<rparr>)"
    by (simp add: v0 s)
  then have f: "find (\<lambda>v. voucher_id v = 1)
        (vouchers (snd (approval_post two_voucher_db (Some 2) 1 (Some ''APPROVED'') 9))) =
       Some (demo_voucher\<lparr>status := ''APPROVED''\<rparr>)"
    by (simp only: e snd_conv)
  let ?u = "\<lparr>user_id = 1, username = ''u1'', is_superuser = False, groups = [''Admin Staff'']\<rparr>"
  have a: "request_user two_voucher_db (Some 1) = Some ?u"
    by (simp add: request_user_def two_voucher_defs)
  have g: "in_group ?u ''Admin Staff'' \<or> is_superuser ?u"
    by (simp add: in_group_def)
  have n: "voucher_number (demo_voucher\<lparr>status := ''PENDING''\<rparr>) \<noteq> []"
    by (simp add: demo_defs)
  have m: "username ?u \<in> set (required_approvers two_voucher_db
                                   (demo_voucher\<lparr>status := ''PENDING''\<rparr>))"
    by (simp add: required_approvers_def active_des_ids_def designation_in_def two_voucher_defs)
  have l: "length (approval_rows two_voucher_db 1 (user_id ?u)) \<le> 1"
    by (simp add: approval_rows_def two_voucher_defs)
  from c(1) v0 have f1: "find (\<lambda>v. voucher_id v = 1) (vouchers two_voucher_db) =
      Some (demo_voucher\<lparr>status := ''PENDING''\<rparr>)"
    by simp
  from record_decision_status_recomputed
         [where db = two_voucher_db and session = "Some 1" and pk = 1 and u = ?u
            and ?v1.0 = "demo_voucher\<lparr>status := ''PENDING''\<rparr>" and now = 9,
          THEN conjunct2, THEN conjunct2, THEN conjunct2, THEN mp] a g f1 n m l
  obtain r d where p:
    "approval_post two_voucher_db (Some 1) 1 (Some ''REJECTED'') 9 = (Response 200 r, d)"
    by blast
  from record_decision_status_recomputed
         [where db = two_voucher_db and session = "Some 1" and pk = 1
            and status_choice = "Some ''REJECTED''" and now = 9,
          THEN conjunct2, THEN conjunct2, THEN conjunct1, THEN mp, OF p] f1
  have "find (\<lambda>v. voucher_id v = 1) (vouchers d) = Some (demo_voucher\<lparr>status := ''REJECTED''\<rparr>)"
    by auto
  with p have "\<exists>r d. approval_post two_voucher_db (Some 1) 1 (Some ''REJECTED'') 9 = (Response 200 r, d) \<and>
         find (\<lambda>v. voucher_id v = 1) (vouchers d) = Some (demo_voucher\<lparr>status := ''REJECTED''\<rparr>)"
    by blast
  with e f show ?thesis by simp
qed

text \<open>
  Claim C3, as written, fails: a second decision by the same approver keeps the timestamp
  of the first. Here \<open>u1\<close>, who approved at time 5, rejects at time 9; the single row of
  the pair carries the new decision and still the time 5.
\<close>

theorem approval_timestamp_not_refreshed:
  "fst (approval_post demo_db (Some 1) 1 (Some ''REJECTED'') 9) =
     Response 200 (ApprovalData (demo_voucher\<lparr>status := ''REJECTED''\<rparr>) ''u1'' 5)
   \<and> approval_rows (snd (approval_post demo_db (Some 1) 1 (Some ''REJECTED'') 9)) 1 1 =
       [\<lparr>approval_voucher = 1, approver = 1, approval_status = ''REJECTED'', approved_at = 5\<rparr>]
   \<and> map approved_at
        (approval_rows (snd (approval_post demo_db (Some 1) 1 (Some ''REJECTED'') 9)) 1 1) \<noteq> [9]"
  by (simp add: approval_defs demo_defs Let_def)

text \<open>
  Claim C3, amended. A recorded decision leaves exactly one approval row for the voucher
  and the approver; the row carries the decision just supplied; its timestamp is the time
  of this call when the approver had no row before, and the timestamp of the earlier row
  otherwise.
\<close>

theorem record_decision_upserts:
  assumes "approval_post db session pk status_choice now = (Response 200 b, db')"
  shows "\<exists>i st a. session = Some i \<and> status_choice = Some st \<and>
           approval_rows db' pk i = [a] \<and> approval_status a = st \<and>
           approved_at a = (case approval_rows db pk i of [] \<Rightarrow> now | old # _ \<Rightarrow> approved_at old)"
proof -
  from approval_post_ok[OF assms] obtain i u voucher st db1 a v' where h:
    "session = Some i" 
    "status_choice = Some st" 
    "update_or_create_approval db pk i st now = Inr (db1, a)"
    "update_status_if_all_approved db1 voucher = Inr (db', v')"
    by blast
  have "approvals db' = approvals db1"
    using h(4) by (rule usiaa_tables(1))
  then have "approval_rows db' pk i = approval_rows db1 pk i"
    by (simp add: approval_rows_def)
  with uoc_rows[OF h(3)] h(1,2) show ?thesis by simp
qed

theorem record_decision_upserts_witness:
  "approval_post demo_db (Some 1) 1 (Some ''REJECTED'') 9 =
     (Response 200 (ApprovalData (demo_voucher\<lparr>status := ''REJECTED''\<rparr>) ''u1'' 5),
      demo_db\<lparr>vouchers := [demo_voucher\<lparr>status := ''REJECTED''\<rparr>],
              approvals := [\<lparr>approval_voucher = 1, approver = 1,
                             approval_status = ''REJECTED'', approved_at = 5\<rparr>]\<rparr>)
   \<and> (\<exists>a. approval_rows (snd (approval_post demo_db (Some 1) 1 (Some ''REJECTED'') 9)) 1 1 = [a]
          \<and> approval_status a = ''REJECTED'')"
proof -
  have e: "approval_post demo_db (Some 1) 1 (Some ''REJECTED'') 9 =
     (Response 200 (ApprovalData (demo_voucher\<lparr>status := ''REJECTED''\<rparr>) ''u1'' 5),
      demo_db\<lparr>vouchers := [demo_voucher\<lparr>status := ''REJECTED''\<rparr>],
              approvals := [\<lparr>approval_voucher = 1, approver = 1,
                             approval_status = ''REJECTED'', approved_at = 5\<rparr>]\<rparr>)"
    by (simp add: approval_defs demo_defs Let_def)
  from record_decision_upserts [OF e]
  have "\<exists>a. approval_rows
              (demo_db\<lparr>vouchers := [demo_voucher\<lparr>status := ''REJECTED''\<rparr>],
                 approvals := [\<lparr>approval_voucher = 1, approver = 1,
                                approval_status = ''REJECTED'', approved_at = 5\<rparr>]\<rparr>) 1 1 = [a]
          \<and> approval_status a = ''REJECTED''"
    by auto
  then show ?thesis by (simp only: e snd_conv simp_thms)
qed

text \<open>
  Claim C9, as written, fails: the decision value is checked before the required-approver
  check. Here \<open>u2\<close>, an Admin Staff user who is not a required approver, submits an
  invalid decision and is answered 400 for the invalid value, not 403.
\<close>

theorem invalid_choice_reported_before_forbidden:
  "''u2'' \<notin> set (required_approvers demo_db demo_voucher)
   \<and> approval_post demo_db (Some 2) 1 (Some ''MAYBE'') 9 =
       (Response 400 (Errors [(''status'', ''Invalid choice.'')]), demo_db)"
  by (simp add: approval_defs demo_defs Let_def)

text \<open>
  Claim C9, amended. A request by an authenticated Admin Staff user (or superuser) who is
  not in the live required-approver set of an existing voucher changes nothing; it is
  answered 403 when the submitted decision is APPROVED or REJECTED, and 400 for the invalid
  decision value otherwise.
\<close>

theorem unauthorized_decision_response:
  assumes "request_user db session = Some u"
    and "in_group u ''Admin Staff'' \<or> is_superuser u"
    and "find (\<lambda>v. voucher_id v = pk) (vouchers db) = Some voucher"
    and "username u \<notin> set (required_approvers db voucher)"
  shows "approval_post db session pk status_choice now =
    (if status_choice = Some ''APPROVED'' \<or> status_choice = Some ''REJECTED''
     then (Response 403
             (Errors [(''error'', ''You are not authorized to approve this voucher.'')]), db)
     else (Response 400 (Errors [(''status'', ''Invalid choice.'')]), db))"
  using assms by (cases status_choice) (auto simp: approval_post_def)

theorem unauthorized_decision_response_witness:
  "request_user demo_db (Some 2) =
     Some \<lparr>user_id = 2, username = ''u2'', is_superuser = False, groups = [''Admin Staff'']\<rparr>
   \<and> approval_post demo_db (Some 2) 1 (Some ''APPROVED'') 9 =
       (Response 403
          (Errors [(''error'', ''You are not authorized to approve this voucher.'')]), demo_db)"
proof -
  let ?u = "\<lparr>user_id = 2, username = ''u2'', is_superuser = False, groups = [''Admin Staff'']\<rparr>"
  have a: "request_user demo_db (Some 2) = Some ?u"
    by (simp add: request_user_def demo_defs)
  have b: "in_group ?u ''Admin Staff'' \<or> is_superuser ?u"
    by (simp add: in_group_def)
  have c: "find (\<lambda>v. voucher_id v = 1) (vouchers demo_db) = Some demo_voucher"
    by (simp add: demo_defs)
  have d: "username ?u \<notin> set (required_approvers demo_db demo_voucher)"
    by (simp add: approval_defs demo_defs)
  from unauthorized_decision_response [OF a b c d, of "Some ''APPROVED''" 9] a
  show ?thesis by simp
qed

subsection \<open>Approval control\<close>

text \<open>
  Claim C5. For a superuser and a table with one activation row per designation, the
  configuration call with the list \<open>L\<close> succeeds; afterwards every existing designation
  has exactly one activation row, which is active exactly when the designation's id is
  listed in \<open>L\<close> (for a list of ids: when the id is a member); a second call with the
  same list succeeds, leaves every designation's flag as it is, and leaves the required
  approvers of every voucher as they are.
\<close>

theorem set_active_set_full_replace_idempotent:
  assumes "request_user db session = Some actor" and "is_superuser actor"
    and "one_row_per_designation db"
  shows "\<exists>db' db''.
     control_post db session (IdList L) now =
       (Response 200
          (ControlData (''Approval workflow updated. '' @ str_nat (length L) @
                        '' active designations.'') (length L)), db')
     \<and> (\<forall>d \<in> set (designations db').
           \<exists>a. aad_rows db' (designation_id d) = [a] \<and>
               is_active a = (str_nat (designation_id d) \<in> set (map py_str L)))
     \<and> (\<forall>ids i. L = map (\<lambda>k. JInt (int k)) ids \<longrightarrow>
           (str_nat i \<in> set (map py_str L)) = (i \<in> set ids))
     \<and> control_post db' session (IdList L) now' =
       (Response 200
          (ControlData (''Approval workflow updated. '' @ str_nat (length L) @
                        '' active designations.'') (length L)), db'')
     \<and> activation db'' = activation db'
     \<and> (\<forall>v. required_approvers db'' v = required_approvers db' v)"
proof -
  from control_loop_result [OF assms(3), of "designations db" L "user_id actor" now]
  obtain db' where
    l: "control_loop (designations db) L (user_id actor) now db = (None, db')"
      "one_row_per_designation db'"
      "\<forall>k. map_of (activation db') k =
                  (if k \<in> designation_id ` set (designations db)
                   then Some (str_nat k \<in> set (map py_str L))
                   else map_of (activation db) k)"
      "users db' = users db" "designations db' = designations db"
      "profiles db' = profiles db"
    by blast
  have p1: "control_post db session (IdList L) now =
       (Response 200
          (ControlData (''Approval workflow updated. '' @ str_nat (length L) @
                        '' active designations.'') (length L)), db')"
    using assms(1,2) l(1) by (rule control_post_superuser)
  have dist: "distinct (map aad_designation (active_designations db'))"
    using l(2) by (simp add: one_row_per_designation_def)
  have flags: "map_of (activation db') (designation_id d) =
                 Some (str_nat (designation_id d) \<in> set (map py_str L))"
    if "d \<in> set (designations db')" for d
    using that l(3,5) by simp
  have rows: "\<forall>d \<in> set (designations db').
           \<exists>a. aad_rows db' (designation_id d) = [a] \<and>
               is_active a = (str_nat (designation_id d) \<in> set (map py_str L))"
  proof
    fix d assume "d \<in> set (designations db')"
    from flags [OF this] have "map_of (map (\<lambda>a. (aad_designation a, is_active a))
        (active_designations db')) (designation_id d) =
          Some (str_nat (designation_id d) \<in> set (map py_str L))"
      by (simp add: activation_def)
    from row_of_map_of [OF dist this]
    show "\<exists>a. aad_rows db' (designation_id d) = [a] \<and>
               is_active a = (str_nat (designation_id d) \<in> set (map py_str L))"
      by (simp add: aad_rows_def)
  qed
  have h2: "\<forall>d \<in> set (designations db'). map_of (activation db') (designation_id d) =
            Some (str_nat (designation_id d) \<in> set (map py_str L))"
    using flags by blast
  from control_loop_noop [OF l(2) h2, of "user_id actor" now']
  obtain db'' where
    n: "control_loop (designations db') L (user_id actor) now' db' = (None, db'')"
      "activation db'' = activation db'"
      "users db'' = users db'" "profiles db'' = profiles db'"
    by blast
  have ru: "request_user db' session = Some actor"
    using assms(1) request_user_cong [OF l(4), of session] by simp
  have p2: "control_post db' session (IdList L) now' =
       (Response 200
          (ControlData (''Approval workflow updated. '' @ str_nat (length L) @
                        '' active designations.'') (length L)), db'')"
    using ru assms(2) n(1) by (rule control_post_superuser)
  have ra: "\<forall>v. required_approvers db'' v = required_approvers db' v"
  proof
    fix v
    have "active_des_ids db'' = active_des_ids db'"
      by (simp only: active_des_ids_activation n(2))
    with n(3,4) show "required_approvers db'' v = required_approvers db' v"
      by (simp only: required_approvers_def)
  qed
  have li: "\<forall>ids i. L = map (\<lambda>k. JInt (int k)) ids \<longrightarrow>
           (str_nat i \<in> set (map py_str L)) = (i \<in> set ids)"
    by (intro allI impI) (simp only: listed_ids)
  show ?thesis
    apply (rule exI [of _ db'])
    apply (rule exI [of _ db''])
    apply (intro conjI)
         apply (rule p1)
        apply (rule rows)
       apply (rule li)
      apply (rule p2)
     apply (rule n(2))
    apply (rule ra)
    done
qed

theorem set_active_set_full_replace_idempotent_witness:
  "request_user demo_db (Some 4) =
     Some \<lparr>user_id = 4, username = ''root'', is_superuser = True, groups = []\<rparr>
   \<and> one_row_per_designation demo_db
   \<and> control_post demo_db (Some 4) (IdList [JInt 2]) 7 =
       (Response 200 (ControlData ''Approval workflow updated. 1 active designations.'' 1),
        demo_db\<lparr>active_designations :=
          [\<lparr>aad_designation = 1, is_active = False, updated_by = 4, updated_at = 7\<rparr>,
           \<lparr>aad_designation = 2, is_active = True, updated_by = 4, updated_at = 7\<rparr>]\<rparr>)
   \<and> activation (snd (control_post
         (demo_db\<lparr>active_designations :=
            [\<lparr>aad_designation = 1, is_active = False, updated_by = 4, updated_at = 7\<rparr>,
             \<lparr>aad_designation = 2, is_active = True, updated_by = 4, updated_at = 7\<rparr>]\<rparr>)
         (Some 4) (IdList [JInt 2]) 9)) = [(1, False), (2, True)]"
proof -
  let ?root = "\<lparr>user_id = 4, username = ''root'', is_superuser = True, groups = []\<rparr>"
  let ?db' = "demo_db\<lparr>active_designations :=
          [\<lparr>aad_designation = 1, is_active = False, updated_by = 4, updated_at = 7\<rparr>,
           \<lparr>aad_designation = 2, is_active = True, updated_by = 4, updated_at = 7\<rparr>]\<rparr>"
  have a: "request_user demo_db (Some 4) = Some ?root"
    by (simp add: request_user_def demo_defs)
  have b: "is_superuser ?root" by simp
  have c: "one_row_per_designation demo_db"
    by (simp add: one_row_per_designation_def demo_defs)
  have e: "control_post demo_db (Some 4) (IdList [JInt 2]) 7 =
       (Response 200 (ControlData ''Approval workflow updated. 1 active designations.'' 1), ?db')"
    by (simp add: control_defs demo_defs eval_defs)
  from set_active_set_full_replace_idempotent [OF a b c, of "[JInt 2]" 7 9]
  obtain db1 db2 where h:
    "control_post demo_db (Some 4) (IdList [JInt 2]) 7 =
       (Response 200
          (ControlData (''Approval workflow updated. '' @ str_nat (length [JInt 2]) @
                        '' active designations.'') (length [JInt 2])), db1)"
    "control_post db1 (Some 4) (IdList [JInt 2]) 9 =
       (Response 200
          (ControlData (''Approval workflow updated. '' @ str_nat (length [JInt 2]) @
                        '' active designations.'') (length [JInt 2])), db2)"
    "activation db2 = activation db1"
    by blast
  from h(1) e have d1: "db1 = ?db'" by simp
  from h(2) have "snd (control_post db1 (Some 4) (IdList [JInt 2]) 9) = db2" by simp
  with h(3) d1 have "activation (snd (control_post ?db' (Some 4) (IdList [JInt 2]) 9)) =
     activation ?db'" by simp
  also have "activation ?db' = [(1, False), (2, True)]" by (simp add: activation_def)
  finally show ?thesis using a c e by simp
qed

subsection \<open>Voucher numbering\<close>

text \<open>
  Claim C7. On a table whose vouchers were numbered by \<open>Voucher.save\<close>, saving a voucher
  without number succeeds and gives it \<open>VCH0001\<close> when the table is empty, and otherwise
  \<open>VCH\<close> followed by the greatest numeric suffix in the table plus one, padded with
  zeros to four digits; the new suffix is greater than every suffix in the table, and the
  table with the new voucher is again numbered in order, so that successive creations
  yield increasing numbers.
\<close>

theorem voucher_number_sequential:
  assumes "numbered_in_order (vouchers db)" and "voucher_number self = []"
  shows "\<exists>db' v. voucher_save db self = Inr (db', v) \<and> vouchers db' = vouchers db @ [v] \<and>
           voucher_number v =
             (if vouchers db = [] then ''VCH0001''
              else ''VCH'' @ format_04d (Max (numeric_suffix ` set (vouchers db)) + 1)) \<and>
           (\<forall>w \<in> set (vouchers db). numeric_suffix w < numeric_suffix v) \<and>
           numbered_in_order (vouchers db')"
proof (cases "vouchers db = []")
  case True
  then have a: "assign_voucher_number (vouchers db) self =
              Inr (self\<lparr>voucher_number := ''VCH'' @ format_04d 1\<rparr>)"
    using assms(2) by (simp add: assign_voucher_number_def format_one)
  have gt: "\<forall>w \<in> set (vouchers db). numeric_suffix w < 1" using True by simp
  from save_with_number [OF assms(1) a _ gt] True show ?thesis
    by (simp add: format_one)
next
  case False
  then obtain lv where lv: "last_voucher (vouchers db) = Some lv"
    using last_voucher_None [of "vouchers db"] by (cases "last_voucher (vouchers db)") auto
  from last_voucher_max [OF lv] have mem: "lv \<in> set (vouchers db)"
    and top: "\<forall>w \<in> set (vouchers db). voucher_id w \<le> voucher_id lv" by simp_all
  from assms(1) have old: "list_all save_numbered (vouchers db)"
    "distinct (map voucher_id (vouchers db))"
    "\<forall>v \<in> set (vouchers db). \<forall>w \<in> set (vouchers db).
         voucher_id v < voucher_id w \<longrightarrow> numeric_suffix v < numeric_suffix w"
    by (simp_all add: numbered_in_order_def)
  from old(1) mem have sn: "0 < numeric_suffix lv"
    "voucher_number lv = ''VCH'' @ format_04d (numeric_suffix lv)"
    by (simp_all add: list_all_iff save_numbered_def)
  have tk: "take 3 (voucher_number lv) = ''VCH''" by (subst sn(2)) simp
  have dr: "drop 3 (voucher_number lv) = format_04d (numeric_suffix lv)" by (subst sn(2)) simp
  have pi: "py_int (drop 3 (voucher_number lv)) = Some (numeric_suffix lv)"
    unfolding dr using sn(1) by (simp add: py_int_format)
  have a: "assign_voucher_number (vouchers db) self =
              Inr (self\<lparr>voucher_number := ''VCH'' @ format_04d (numeric_suffix lv + 1)\<rparr>)"
    using assms(2) lv tk pi by (simp add: assign_voucher_number_def)
  have le: "numeric_suffix w \<le> numeric_suffix lv" if w: "w \<in> set (vouchers db)" for w
  proof (cases "voucher_id w < voucher_id lv")
    case True
    with old(3) w mem show ?thesis by fastforce
  next
    case False
    with top w have "voucher_id w = voucher_id lv" by fastforce
    moreover from old(2) have "inj_on voucher_id (set (vouchers db))"
      by (simp add: distinct_map)
    ultimately have "w = lv" using w mem by (simp add: inj_on_def)
    then show ?thesis by simp
  qed
  have mx: "Max (numeric_suffix ` set (vouchers db)) = numeric_suffix lv"
  proof (rule Max_eqI)
    show "finite (numeric_suffix ` set (vouchers db))" by simp
    show "\<And>y. y \<in> numeric_suffix ` set (vouchers db) \<Longrightarrow> y \<le> numeric_suffix lv"
      using le by auto
    show "numeric_suffix lv \<in> numeric_suffix ` set (vouchers db)"
      using mem by simp
  qed
  have gt: "\<forall>w \<in> set (vouchers db). numeric_suffix w < numeric_suffix lv + 1"
    using le by fastforce
  have m: "0 < numeric_suffix lv + 1" using sn(1) by simp
  from save_with_number [OF assms(1) a m gt] False mx show ?thesis
    by simp
qed

theorem voucher_number_sequential_witness:
  "numbered_in_order (vouchers demo_db) \<and> voucher_number demo_new_voucher = []
   \<and> voucher_save demo_db demo_new_voucher =
       Inr (demo_db\<lparr>vouchers := [demo_voucher,
               demo_new_voucher\<lparr>voucher_number := ''VCH0002'', voucher_id := 2\<rparr>]\<rparr>,
            demo_new_voucher\<lparr>voucher_number := ''VCH0002'', voucher_id := 2\<rparr>)
   \<and> numbered_in_order [demo_voucher,
         demo_new_voucher\<lparr>voucher_number := ''VCH0002'', voucher_id := 2\<rparr>]"
proof -
  let ?v = "demo_new_voucher\<lparr>voucher_number := ''VCH0002'', voucher_id := 2\<rparr>"
  have a: "numbered_in_order (vouchers demo_db)"
    by (simp add: number_defs demo_defs eval_defs)
  have b: "voucher_number demo_new_voucher = []"
    by (simp add: demo_new_voucher_def)
  have e: "voucher_save demo_db demo_new_voucher =
       Inr (demo_db\<lparr>vouchers := [demo_voucher, ?v]\<rparr>, ?v)"
    by (simp add: number_defs demo_defs demo_new_voucher_def eval_defs Let_def)
  from voucher_number_sequential [OF a b] obtain db' v where
    h: "voucher_save demo_db demo_new_voucher = Inr (db', v)"
       "numbered_in_order (vouchers db')"
    by blast
  from h(1) e have "vouchers db' = [demo_voucher, ?v]" by auto
  with h(2) have "numbered_in_order [demo_voucher, ?v]" by simp
  with a b e show ?thesis by simp
qed

subsection \<open>Voucher submission\<close>

text \<open>
  Claim C4 does not hold of the code. \<open>VoucherSerializer.validate\<close> tests the cheque number
  with \<open>str.isdigit\<close>, which accepts the superscript digits besides the ten decimal
  digits, while its own message says that the number must contain only digits. Here the
  accountant submits a CHEQUE payment whose cheque number is 12 followed by the
  superscript two (U+00B2), which is no decimal digit: \<open>validate\<close> lets the value pass,
  the submission is answered 201, and the number is stored as submitted. The same
  submission with 12A4 is refused with that message.
\<close>

theorem superscript_cheque_number_accepted:
  "\<not> is_decimal_digit (CHR 0xB2)
   \<and> validate
        \<lparr>vd_voucher_date = ''2024-05-02'', vd_payment_type = ''CHEQUE'', vd_name_title = ''MS'',
         vd_pay_to = ''Bolt'', vd_cheque_number = Some (''12'' @ [CHR 0xB2]),
         vd_attachment = \<lparr>file_name = ''inv.png'', file_size = 2000\<rparr>,
         vd_particulars =
           [\<lparr>pd_description = ''Taxi'', pd_amount = Finite 1250 (- 2), pd_attachment = None\<rparr>]\<rparr> =
       Valid
        \<lparr>vd_voucher_date = ''2024-05-02'', vd_payment_type = ''CHEQUE'', vd_name_title = ''MS'',
         vd_pay_to = ''Bolt'', vd_cheque_number = Some (''12'' @ [CHR 0xB2]),
         vd_attachment = \<lparr>file_name = ''inv.png'', file_size = 2000\<rparr>,
         vd_particulars =
           [\<lparr>pd_description = ''Taxi'', pd_amount = Finite 1250 (- 2), pd_attachment = None\<rparr>]\<rparr>
   \<and> voucher_create_post demo_framework demo_db
        (demo_request ''CHEQUE'' (''12'' @ [CHR 0xB2]) taxi_row) 8 =
     (Response 201
        (VoucherData
           \<lparr>voucher_id = 2, voucher_number = ''VCH0002'', voucher_date = ''2024-05-02'',
            payment_type = ''CHEQUE'', name_title = ''MS'', pay_to = ''Bolt'',
            attachment = Some \<lparr>file_name = ''inv.png'', file_size = 2000\<rparr>,
            cheque_number = Some (''12'' @ [CHR 0xB2]), created_by = 3, created_at = 8,
            status = ''PENDING''\<rparr>
           [\<lparr>particular_voucher = 2, description = ''Taxi'', amount = Finite 1250 (- 2),
             particular_attachment = None\<rparr>]),
      demo_db\<lparr>vouchers := [demo_voucher,
           \<lparr>voucher_id = 2, voucher_number = ''VCH0002'', voucher_date = ''2024-05-02'',
            payment_type = ''CHEQUE'', name_title = ''MS'', pay_to = ''Bolt'',
            attachment = Some \<lparr>file_name = ''inv.png'', file_size = 2000\<rparr>,
            cheque_number = Some (''12'' @ [CHR 0xB2]), created_by = 3, created_at = 8,
            status = ''PENDING''\<rparr>],
         particulars := particulars demo_db @
           [\<lparr>particular_voucher = 2, description = ''Taxi'', amount = Finite 1250 (- 2),
             particular_attachment = None\<rparr>]\<rparr>)
   \<and> voucher_create_post demo_framework demo_db (demo_request ''CHEQUE'' ''12A4'' taxi_row) 8 =
       (Response 400 (Errors [(''cheque_number'', ''Cheque number must contain only digits.'')]),
        demo_db)"
proof (intro conjI)
  show "\<not> is_decimal_digit (CHR 0xB2)"
    by (simp add: is_decimal_digit_def)
  show "validate
        \<lparr>vd_voucher_date = ''2024-05-02'', vd_payment_type = ''CHEQUE'', vd_name_title = ''MS'',
         vd_pay_to = ''Bolt'', vd_cheque_number = Some (''12'' @ [CHR 0xB2]),
         vd_attachment = \<lparr>file_name = ''inv.png'', file_size = 2000\<rparr>,
         vd_particulars =
           [\<lparr>pd_description = ''Taxi'', pd_amount = Finite 1250 (- 2), pd_attachment = None\<rparr>]\<rparr> =
       Valid
        \<lparr>vd_voucher_date = ''2024-05-02'', vd_payment_type = ''CHEQUE'', vd_name_title = ''MS'',
         vd_pay_to = ''Bolt'', vd_cheque_number = Some (''12'' @ [CHR 0xB2]),
         vd_attachment = \<lparr>file_name = ''inv.png'', file_size = 2000\<rparr>,
         vd_particulars =
           [\<lparr>pd_description = ''Taxi'', pd_amount = Finite 1250 (- 2), pd_attachment = None\<rparr>]\<rparr>"
    by (simp add: validate_def py_defs Let_def)
  show "voucher_create_post demo_framework demo_db
        (demo_request ''CHEQUE'' (''12'' @ [CHR 0xB2]) taxi_row) 8 =
     (Response 201
        (VoucherData
           \<lparr>voucher_id = 2, voucher_number = ''VCH0002'', voucher_date = ''2024-05-02'',
            payment_type = ''CHEQUE'', name_title = ''MS'', pay_to = ''Bolt'',
            attachment = Some \<lparr>file_name = ''inv.png'', file_size = 2000\<rparr>,
            cheque_number = Some (''12'' @ [CHR 0xB2]), created_by = 3, created_at = 8,
            status = ''PENDING''\<rparr>
           [\<lparr>particular_voucher = 2, description = ''Taxi'', amount = Finite 1250 (- 2),
             particular_attachment = None\<rparr>]),
      demo_db\<lparr>vouchers := [demo_voucher,
           \<lparr>voucher_id = 2, voucher_number = ''VCH0002'', voucher_date = ''2024-05-02'',
            payment_type = ''CHEQUE'', name_title = ''MS'', pay_to = ''Bolt'',
            attachment = Some \<lparr>file_name = ''inv.png'', file_size = 2000\<rparr>,
            cheque_number = Some (''12'' @ [CHR 0xB2]), created_by = 3, created_at = 8,
            status = ''PENDING''\<rparr>],
         particulars := particulars demo_db @
           [\<lparr>particular_voucher = 2, description = ''Taxi'', amount = Finite 1250 (- 2),
             particular_attachment = None\<rparr>]\<rparr>)"
    by (simp add: all_eval)
  show "voucher_create_post demo_framework demo_db (demo_request ''CHEQUE'' ''12A4'' taxi_row) 8 =
       (Response 400 (Errors [(''cheque_number'', ''Cheque number must contain only digits.'')]),
        demo_db)"
    by (simp add: all_eval)
qed

text \<open>
  Claim C6, as written, fails: a row without description is not an error. Here the first
  row has an empty description and the second is complete; the submission is accepted
  and stores the second row only.
\<close>

theorem blank_description_row_is_skipped:
  "row_blank (demo_request ''CASH'' '''' blank_first_rows) 0
   \<and> fst (voucher_create_post demo_framework demo_db
            (demo_request ''CASH'' '''' blank_first_rows) 8) =
       Response 201
         (VoucherData
            \<lparr>voucher_id = 2, voucher_number = ''VCH0002'', voucher_date = ''2024-05-02'',
             payment_type = ''CASH'', name_title = ''MS'', pay_to = ''Bolt'',
             attachment = Some \<lparr>file_name = ''inv.png'', file_size = 2000\<rparr>,
             cheque_number = None, created_by = 3, created_at = 8, status = ''PENDING''\<rparr>
            [\<lparr>particular_voucher = 2, description = ''Taxi'', amount = Finite 10 0,
              particular_attachment = None\<rparr>])"
  by (simp add: all_eval row_blank_def blank_first_rows_def)

text \<open>
  Claim C6, amended. Rows whose trimmed description or amount is empty are passed over.
  The first row that has both and whose amount does not parse or is not positive makes
  the submission of an accountant fail with a 400 response whose \<open>particulars\<close> entry
  names the row by its 1-based index, and nothing is written. An accepted submission
  stores at least one particular, each with a non-empty description and a positive amount.
\<close>

theorem particulars_checked:
  "(request_user db (session_user req) = Some u \<and> in_group u ''Accountants'' \<and>
    row_submitted req i \<and> \<not> row_blank req i \<and> amount_verdict fw req i = Some msg \<and>
    (\<forall>j < i. row_blank req j \<or> amount_verdict fw req j = None) \<longrightarrow>
      voucher_create_post fw db req now =
        (Response 400 (Errors [(''particulars'', msg @ str_nat (i + 1))]), db))
   \<and> (voucher_create_post fw db req now = (Response 201 (VoucherData v ps), db') \<longrightarrow>
        (\<exists>new. new \<noteq> [] \<and> particulars db' = particulars db @ new \<and>
           list_all (\<lambda>p. particular_voucher p = voucher_id v \<and> description p \<noteq> [] \<and>
                          le_zero (amount p) = Some False) new))"
proof (intro conjI impI)
  assume h: "request_user db (session_user req) = Some u \<and> in_group u ''Accountants'' \<and>
    row_submitted req i \<and> \<not> row_blank req i \<and> amount_verdict fw req i = Some msg \<and>
    (\<forall>j < i. row_blank req j \<or> amount_verdict fw req j = None)"
  then have r: "rebuild_particulars fw (POST req) (FILES req) 0 [] =
           Inl (''particulars'', msg @ str_nat (i + 1))"
    by (intro rebuild_offending) simp_all
  with h show "voucher_create_post fw db req now =
        (Response 400 (Errors [(''particulars'', msg @ str_nat (i + 1))]), db)"
    by (simp add: voucher_create_post_def)
next
  assume ok: "voucher_create_post fw db req now = (Response 201 (VoucherData v ps), db')"
  from post_created [OF ok] obtain sd vd u where
    iv: "is_valid fw sd = Valid vd" and cr: "create db vd u now = Inr (db', v)"
    by blast
  let ?new = "map (\<lambda>p. \<lparr>particular_voucher = voucher_id v, description = pd_description p,
                      amount = pd_amount p, particular_attachment = pd_attachment p\<rparr>)
               (vd_particulars vd)"
  from iv obtain d0 att qs where
    "validate (d0\<lparr>vd_attachment := att, vd_particulars := qs\<rparr>) = Valid vd"
    by (auto simp: is_valid_def split: sum.splits checked.splits)
  from validate_Valid(2,3) [OF this] have ne: "vd_particulars vd \<noteq> []" by simp
  from is_valid_Valid(1) [OF iv]
  have "list_all (\<lambda>p. particular_voucher p = voucher_id v \<and> description p \<noteq> [] \<and>
                          le_zero (amount p) = Some False) ?new"
    by (simp add: list_all_iff)
  moreover have "?new \<noteq> []" using ne by simp
  moreover note create_result(4) [OF cr]
  ultimately show "\<exists>new. new \<noteq> [] \<and> particulars db' = particulars db @ new \<and>
           list_all (\<lambda>p. particular_voucher p = voucher_id v \<and> description p \<noteq> [] \<and>
                          le_zero (amount p) = Some False) new"
    by blast
qed

theorem particulars_checked_witness:
  "voucher_create_post demo_framework demo_db (demo_request ''CASH'' '''' bad_second_rows) 8 =
     (Response 400 (Errors [(''particulars'', ''Invalid amount for item 2'')]), demo_db)"
proof -
  let ?req = "demo_request ''CASH'' '''' bad_second_rows"
  let ?u = "\<lparr>user_id = 3, username = ''acc'', is_superuser = False, groups = [''Accountants'']\<rparr>"
  have a: "request_user demo_db (session_user ?req) = Some ?u"
    by (simp add: request_user_def demo_defs demo_request_def)
  have b: "in_group ?u ''Accountants''" by (simp add: in_group_def)
  have c: "row_submitted ?req 1"
    by (simp add: row_submitted_def demo_request_def bad_second_rows_def le_Suc_eq)
  have d: "\<not> row_blank ?req 1"
    by (simp add: row_blank_def demo_request_def bad_second_rows_def query_get_def
          get_or_empty_def py_defs)
  have e: "amount_verdict demo_framework ?req 1 = Some ''Invalid amount for item ''"
    by (simp add: amount_verdict_def demo_request_def bad_second_rows_def query_get_def
          get_or_empty_def demo_submit_defs py_defs)
  have f: "\<forall>j < 1. row_blank ?req j \<or> amount_verdict demo_framework ?req j = None"
    by (simp add: amount_verdict_def demo_request_def bad_second_rows_def query_get_def
          get_or_empty_def demo_submit_defs py_defs)
  have s: "''Invalid amount for item '' @ str_nat (1 + 1) = ''Invalid amount for item 2''"
    by (simp add: eval_defs)
  from particulars_checked [of demo_db ?req ?u 1 demo_framework "''Invalid amount for item ''" 8,
         THEN conjunct1, THEN mp] a b c d e f
  show ?thesis by (simp only: s simp_thms)
qed

text \<open>
  Claim C8. A submission that is answered with anything but 201, a validation error in
  particular, leaves every table as it was: all checks come before the first write.
\<close>

theorem failed_submission_writes_nothing:
  assumes "voucher_create_post fw db req now = (r, db')"
    and "\<forall>v ps. r \<noteq> Response 201 (VoucherData v ps)"
  shows "db' = db"
  using assms
  by (auto simp: voucher_create_post_def Let_def
           split: option.splits if_splits sum.splits checked.splits prod.splits)

theorem failed_submission_writes_nothing_witness:
  "voucher_create_post demo_framework demo_db (demo_request ''CHEQUE'' ''12A4'' taxi_row) 8 =
     (Response 400 (Errors [(''cheque_number'', ''Cheque number must contain only digits.'')]),
      demo_db)"
proof -
  obtain r db' where e: "voucher_create_post demo_framework demo_db
       (demo_request ''CHEQUE'' ''12A4'' taxi_row) 8 = (r, db')"
    by (cases "voucher_create_post demo_framework demo_db
       (demo_request ''CHEQUE'' ''12A4'' taxi_row) 8")
  have "fst (voucher_create_post demo_framework demo_db
                  (demo_request ''CHEQUE'' ''12A4'' taxi_row) 8) =
       Response 400 (Errors [(''cheque_number'', ''Cheque number must contain only digits.'')])"
    by (simp add: all_eval)
  with e have r: "r = Response 400
       (Errors [(''cheque_number'', ''Cheque number must contain only digits.'')])"
    by simp
  then have n: "\<forall>v ps. r \<noteq> Response 201 (VoucherData v ps)" by simp
  from failed_submission_writes_nothing [OF e n] e r show ?thesis by simp
qed

end
